theory Spec2Isabelle
  imports Main "HOL-Library.DAList"
begin

section \<open>Data model of \<open>src/App.tsx\<close>\<close>

text \<open>
  The component keeps its state in React state cells and refs. The model is one record
  holding all of them, passed through every handler. Objects that the code shares by
  reference (peer connections, web sockets, timers) live in stores indexed by a handle,
  so that a closure capturing an object is a closure capturing its handle.

  Streamer and client ids are JavaScript numbers that the protocol uses as integers;
  they are \<open>int\<close> here. SDP descriptions and ICE candidates are opaque to this code and
  are strings here.
\<close>

datatype ConnectionStatus = Disconnected | Connecting | Connected | ConnectionError

type_synonym sdp = string
type_synonym candidate = string

text \<open>Inbound signaling messages, by their \<open>type\<close> tag (anything else is \<open>OtherMessage\<close>).\<close>

datatype message =
    ConnectMessage int "int list"
  | DisconnectedMessage int
  | NewStreamerMessage int
  | OfferMessage sdp int
  | CandidateMessage candidate int
  | OtherMessage string

text \<open>What \<open>sendToPeer\<close> is given as \<open>data\<close>; the message sent is \<open>data\<close> plus \<open>target\<close>.\<close>

datatype payload = AnswerData sdp | IceCandidateData candidate | SubscribeData

type_synonym outbound = "payload \<times> int"

datatype listener = icecandidate | connectionstatechange | track

text \<open>
  A peer connection. \<open>pc_listeners\<close> lists the registrations made by
  \<open>addEventListener\<close>: every call in the source passes a new arrow function, so every call
  registers one more listener. \<open>pc_eventListeners\<close> is the property \<open>pc.eventListeners\<close>
  that \<open>sendSubscribe\<close> reads: \<open>None\<close> is \<open>undefined\<close>, the value of a new object.
\<close>

record RTCPeerConnection =
  pc_closed :: bool
  pc_listeners :: "listener list"
  pc_eventListeners :: "listener list option"
  pc_remoteDescription :: "sdp option"
  pc_localDescription :: "sdp option"
  pc_remoteCandidates :: "candidate list"

datatype readyState = CONNECTING | OPEN | CLOSING | CLOSED

text \<open>A web socket, with the timer id that its handlers captured in \<open>handleConnect\<close>.\<close>

record WebSocket =
  ws_readyState :: readyState
  ws_sent :: "outbound list"
  ws_timeoutId :: nat

text \<open>Calls of the code into the two external capabilities, in the order they are made.\<close>

datatype call =
    NewPeerConnection nat
  | PcAddEventListener nat listener
  | PcSetRemoteDescription nat sdp
  | PcCreateAnswer nat
  | PcSetLocalDescription nat sdp
  | PcAddIceCandidate nat candidate
  | PcClose nat
  | NewWebSocket nat
  | WsSend nat outbound
  | WsClose nat

text \<open>
  An \<open>await\<close> suspends its handler. What is left of the handler is a continuation with
  the variables it captured: the streamer id, the peer connection, and the value given to
  the pending call.
\<close>

datatype continuation =
    AfterSetRemoteDescription int nat sdp
  | AfterCreateAnswer int nat
  | AfterSetLocalDescription int nat sdp
  | AfterAddIceCandidate nat candidate

datatype settlement = Fulfilled | FulfilledWith sdp | Rejected string

record App =
  streamersRef :: "(int, nat) alist"
  pcs :: "RTCPeerConnection list"
  streamerIds :: "int list"
  logs :: "string list"
  console :: "string list"
  connectionStatus :: ConnectionStatus
  client_id :: int
  webSocketRef :: "nat option"
  sockets :: "WebSocket list"
  timers :: "bool list"
  pending :: "continuation list"
  calls :: "call list"

text \<open>The state of the component when it is mounted.\<close>

definition init :: App where
  "init = \<lparr>streamersRef = DAList.empty, pcs = [], streamerIds = [], logs = [], console = [],
           connectionStatus = Disconnected, client_id = 0, webSocketRef = None, sockets = [],
           timers = [], pending = [], calls = []\<rparr>"

section \<open>Helpers\<close>

text \<open>A number inside a template literal: decimal digits, with a sign when negative.\<close>

definition digit_char :: "nat \<Rightarrow> char" where
  "digit_char d = ''0123456789'' ! d"

function show_nat :: "nat \<Rightarrow> string" where
  "show_nat n = (if n < 10 then [digit_char n] else show_nat (n div 10) @ [digit_char (n mod 10)])"
  by pat_completeness auto
termination
  by (relation "measure (\<lambda>n. n)") auto

declare show_nat.simps [simp del]

definition show_num :: "int \<Rightarrow> string" where
  "show_num i = (if i < 0 then CHR ''-'' # show_nat (nat (- i)) else show_nat (nat i))"

text \<open>\<open>log\<close> appends to the log feed and to the console; \<open>console.log\<close> and
  \<open>console.error\<close> write to the console only (their object arguments are left out).\<close>

definition log :: "string \<Rightarrow> App \<Rightarrow> App" where
  "log new_log s = s\<lparr>logs := logs s @ [new_log], console := console s @ [new_log]\<rparr>"

definition console_log :: "string \<Rightarrow> App \<Rightarrow> App" where
  "console_log line s = s\<lparr>console := console s @ [line]\<rparr>"

definition updateStreamerIds :: "App \<Rightarrow> App" where
  "updateStreamerIds s = s\<lparr>streamerIds := map fst (DAList.impl_of (streamersRef s))\<rparr>"

subsection \<open>The external capabilities\<close>

definition fresh_pc :: RTCPeerConnection where
  "fresh_pc = \<lparr>pc_closed = False, pc_listeners = [], pc_eventListeners = None,
               pc_remoteDescription = None, pc_localDescription = None,
               pc_remoteCandidates = []\<rparr>"

text \<open>\<open>new RTCPeerConnection(peerConfig)\<close>: the new object gets the next handle.\<close>

definition new_RTCPeerConnection :: "App \<Rightarrow> App" where
  "new_RTCPeerConnection s =
     s\<lparr>pcs := pcs s @ [fresh_pc], calls := calls s @ [NewPeerConnection (length (pcs s))]\<rparr>"

definition pc_update :: "nat \<Rightarrow> (RTCPeerConnection \<Rightarrow> RTCPeerConnection) \<Rightarrow> App \<Rightarrow> App" where
  "pc_update pc f s = s\<lparr>pcs := (pcs s)[pc := f (pcs s ! pc)]\<rparr>"

definition addEventListener :: "nat \<Rightarrow> listener \<Rightarrow> App \<Rightarrow> App" where
  "addEventListener pc l s =
     (pc_update pc (\<lambda>p. p\<lparr>pc_listeners := pc_listeners p @ [l]\<rparr>) s)
       \<lparr>calls := calls s @ [PcAddEventListener pc l]\<rparr>"

definition pc_close :: "nat \<Rightarrow> App \<Rightarrow> App" where
  "pc_close pc s =
     (pc_update pc (\<lambda>p. p\<lparr>pc_closed := True\<rparr>) s)\<lparr>calls := calls s @ [PcClose pc]\<rparr>"

text \<open>\<open>webSocket.close()\<close> moves a socket that is connecting or open to \<open>CLOSING\<close>.\<close>

definition ws_close :: "nat \<Rightarrow> App \<Rightarrow> App" where
  "ws_close k s =
     s\<lparr>sockets := (sockets s)[k := (sockets s ! k)
          \<lparr>ws_readyState := (case ws_readyState (sockets s ! k) of
                                CONNECTING \<Rightarrow> CLOSING | OPEN \<Rightarrow> CLOSING
                              | CLOSING \<Rightarrow> CLOSING | CLOSED \<Rightarrow> CLOSED)\<rparr>],
       calls := calls s @ [WsClose k]\<rparr>"

definition ws_send :: "nat \<Rightarrow> outbound \<Rightarrow> App \<Rightarrow> App" where
  "ws_send k m s =
     s\<lparr>sockets := (sockets s)[k := (sockets s ! k)\<lparr>ws_sent := ws_sent (sockets s ! k) @ [m]\<rparr>],
       calls := calls s @ [WsSend k m]\<rparr>"

definition clearTimeout :: "nat \<Rightarrow> App \<Rightarrow> App" where
  "clearTimeout t s = s\<lparr>timers := (timers s)[t := False]\<rparr>"

definition await :: "continuation \<Rightarrow> App \<Rightarrow> App" where
  "await c s = s\<lparr>pending := pending s @ [c]\<rparr>"

section \<open>The handlers\<close>

text \<open>\<open>sendToPeer\<close> (lines 98-110).\<close>

definition sendToPeer :: "int \<Rightarrow> payload \<Rightarrow> App \<Rightarrow> App" where
  "sendToPeer target data s =
     (case webSocketRef s of
        Some webSocket \<Rightarrow>
          if ws_readyState (sockets s ! webSocket) = OPEN
          then console_log (''Sent to peer '' @ show_num target @ '':'')
                 (ws_send webSocket (data, target) s)
          else log ''Cannot send message: WebSocket not connected'' s
      | None \<Rightarrow> log ''Cannot send message: WebSocket not connected'' s)"

text \<open>\<open>handleConnectMessage\<close> (lines 120-135); \<open>roster_forEach\<close> is its \<open>forEach\<close>.\<close>

fun roster_forEach :: "int list \<Rightarrow> App \<Rightarrow> App" where
  "roster_forEach [] s = s"
| "roster_forEach (streamerId # rest) s =
     roster_forEach rest
       (if DAList.lookup (streamersRef s) streamerId = None
        then (let s1 = log (''Creating connection with streamer '' @ show_num streamerId) s;
                  pc = length (pcs s1);
                  s2 = new_RTCPeerConnection s1
              in s2\<lparr>streamersRef := DAList.update streamerId pc (streamersRef s2)\<rparr>)
        else s)"

definition handleConnectMessage :: "int \<Rightarrow> int list \<Rightarrow> App \<Rightarrow> App" where
  "handleConnectMessage mid roster s =
     log (''Assigned clientId: '' @ show_num mid)
       (updateStreamerIds (roster_forEach roster (s\<lparr>client_id := mid\<rparr>)))"

text \<open>\<open>handleOffer\<close> (lines 137-183) up to its first \<open>await\<close>.\<close>

definition handleOffer :: "sdp \<Rightarrow> int \<Rightarrow> App \<Rightarrow> App" where
  "handleOffer offer streamerId s =
     (let s1 = log (''Offer received from streamer '' @ show_num streamerId) s;
          s2 = console_log ''Offer received. Current streamers:'' s1
      in case DAList.lookup (streamersRef s2) streamerId of
           Some pc \<Rightarrow>
             (let s3 = addEventListener pc icecandidate s2;
                  s4 = addEventListener pc connectionstatechange s3;
                  s5 = addEventListener pc track s4;
                  s6 = s5\<lparr>calls := calls s5 @ [PcSetRemoteDescription pc offer]\<rparr>
              in await (AfterSetRemoteDescription streamerId pc offer) s6)
         | None \<Rightarrow> log (''Received offer from unknown streamer '' @ show_num streamerId) s2)"

text \<open>The \<open>catch\<close> blocks of \<open>handleOffer\<close> and \<open>handleIceCandidate\<close>.\<close>

definition catch_offer :: "string \<Rightarrow> App \<Rightarrow> App" where
  "catch_offer error s =
     console_log ''Error processing offer:'' (log (''Error processing offer: '' @ error) s)"

definition catch_candidate :: "string \<Rightarrow> App \<Rightarrow> App" where
  "catch_candidate error s =
     console_log ''Error adding ICE candidate:'' (log (''Error adding ICE candidate: '' @ error) s)"

text \<open>\<open>handleNewStreamer\<close> (lines 185-194).\<close>

definition handleNewStreamer :: "int \<Rightarrow> App \<Rightarrow> App" where
  "handleNewStreamer streamerId s =
     (if DAList.lookup (streamersRef s) streamerId = None
      then (let s1 = log (''New Streamer '' @ show_num streamerId) s;
                pc = length (pcs s1);
                s2 = new_RTCPeerConnection s1
            in updateStreamerIds (s2\<lparr>streamersRef := DAList.update streamerId pc (streamersRef s2)\<rparr>))
      else s)"

text \<open>\<open>handleStreamerDisconnection\<close> (lines 196-206).\<close>

definition handleStreamerDisconnection :: "int \<Rightarrow> App \<Rightarrow> App" where
  "handleStreamerDisconnection streamerId s =
     (case DAList.lookup (streamersRef s) streamerId of
        Some pc \<Rightarrow>
          (let s1 = pc_close pc s;
               s2 = s1\<lparr>streamersRef := DAList.delete streamerId (streamersRef s1)\<rparr>
           in log (''Streamer '' @ show_num streamerId @ '' disconnected'') (updateStreamerIds s2))
      | None \<Rightarrow> s)"

text \<open>\<open>handleIceCandidate\<close> (lines 208-224) up to its \<open>await\<close>. A candidate that the
  \<open>RTCIceCandidate\<close> constructor refuses lands in the same \<open>catch\<close> block as a rejected
  \<open>addIceCandidate\<close>; both are a rejected call here.\<close>

definition handleIceCandidate :: "candidate \<Rightarrow> int \<Rightarrow> App \<Rightarrow> App" where
  "handleIceCandidate cand streamerId s =
     (case DAList.lookup (streamersRef s) streamerId of
        Some pc \<Rightarrow>
          await (AfterAddIceCandidate pc cand) (s\<lparr>calls := calls s @ [PcAddIceCandidate pc cand]\<rparr>)
      | None \<Rightarrow>
          console_log (''Received ICE candidate for unknown streamer '' @ show_num streamerId) s)"

text \<open>\<open>handleSignalingMessage\<close> (lines 226-249).\<close>

definition handleSignalingMessage :: "message \<Rightarrow> App \<Rightarrow> App" where
  "handleSignalingMessage m s =
     (let s1 = console_log ''Current streamers:'' (console_log ''Received message:'' s)
      in case m of
           ConnectMessage mid roster \<Rightarrow> handleConnectMessage mid roster s1
         | OfferMessage offer sender \<Rightarrow> handleOffer offer sender s1
         | NewStreamerMessage streamerId \<Rightarrow> handleNewStreamer streamerId s1
         | DisconnectedMessage streamerId \<Rightarrow> handleStreamerDisconnection streamerId s1
         | CandidateMessage cand sender \<Rightarrow> handleIceCandidate cand sender s1
         | OtherMessage t \<Rightarrow> console_log (''Unknown message type: '' @ t) s1)"

text \<open>
  The rest of an \<open>async\<close> handler, run when the pending call settles. A fulfilled call
  has had its effect on the peer connection; a rejected one has had none and lands in
  the \<open>catch\<close> block. A settlement of the wrong kind for the call is not delivered.
\<close>

fun resume :: "continuation \<Rightarrow> settlement \<Rightarrow> App \<Rightarrow> App" where
  "resume (AfterSetRemoteDescription streamerId pc offer) Fulfilled s =
     (let s1 = pc_update pc (\<lambda>p. p\<lparr>pc_remoteDescription := Some offer\<rparr>) s
      in await (AfterCreateAnswer streamerId pc) (s1\<lparr>calls := calls s1 @ [PcCreateAnswer pc]\<rparr>))"
| "resume (AfterSetRemoteDescription streamerId pc offer) (Rejected error) s = catch_offer error s"
| "resume (AfterCreateAnswer streamerId pc) (FulfilledWith answer) s =
     await (AfterSetLocalDescription streamerId pc answer)
       (s\<lparr>calls := calls s @ [PcSetLocalDescription pc answer]\<rparr>)"
| "resume (AfterCreateAnswer streamerId pc) (Rejected error) s = catch_offer error s"
| "resume (AfterSetLocalDescription streamerId pc answer) Fulfilled s =
     sendToPeer streamerId (AnswerData answer)
       (pc_update pc (\<lambda>p. p\<lparr>pc_localDescription := Some answer\<rparr>) s)"
| "resume (AfterSetLocalDescription streamerId pc answer) (Rejected error) s = catch_offer error s"
| "resume (AfterAddIceCandidate pc cand) Fulfilled s =
     pc_update pc (\<lambda>p. p\<lparr>pc_remoteCandidates := pc_remoteCandidates p @ [cand]\<rparr>) s"
| "resume (AfterAddIceCandidate pc cand) (Rejected error) s = catch_candidate error s"
| "resume _ _ s = s"

text \<open>\<open>sendSubscribe\<close> (lines 322-364).\<close>

definition sendSubscribe :: "int \<Rightarrow> App \<Rightarrow> App" where
  "sendSubscribe streamerId s =
     (case DAList.lookup (streamersRef s) streamerId of
        Some pc \<Rightarrow>
          (let existingListeners =
                 (case pc_eventListeners (pcs s ! pc) of Some ls \<Rightarrow> ls | None \<Rightarrow> []);
               s1 = (if icecandidate \<notin> set existingListeners
                     then addEventListener pc icecandidate s else s);
               s2 = (if connectionstatechange \<notin> set existingListeners
                     then addEventListener pc connectionstatechange s1 else s1);
               s3 = (if track \<notin> set existingListeners
                     then addEventListener pc track s2 else s2)
           in log (''Subscribe sent to peer '' @ show_num streamerId)
                (sendToPeer streamerId SubscribeData s3))
      | None \<Rightarrow> log (''Streamer '' @ show_num streamerId @ '' not found'') s)"

text \<open>\<open>selectStreamer\<close> (lines 366-372), for an option that carries a streamer id.\<close>

definition selectStreamer :: "int \<Rightarrow> App \<Rightarrow> App" where
  "selectStreamer streamerId s =
     sendSubscribe streamerId (log (''Selected streamer '' @ show_num streamerId) s)"

text \<open>\<open>handleConnect\<close> (lines 251-320). The disconnect branch:\<close>

fun close_entries :: "(int \<times> nat) list \<Rightarrow> App \<Rightarrow> App" where
  "close_entries [] s = s"
| "close_entries ((streamerId, pc) # rest) s = close_entries rest (pc_close pc s)"

definition manual_disconnect :: "nat \<Rightarrow> App \<Rightarrow> App" where
  "manual_disconnect webSocket s =
     (let s1 = ws_close webSocket s;
          s2 = s1\<lparr>webSocketRef := None, connectionStatus := Disconnected\<rparr>;
          s3 = close_entries (DAList.impl_of (streamersRef s2)) s2;
          s4 = s3\<lparr>streamersRef := DAList.empty\<rparr>
      in log ''Manually disconnected from signaling server'' (updateStreamerIds s4))"

text \<open>The connect branch. \<open>ctor_error\<close> is \<open>Some e\<close> when \<open>new WebSocket\<close> throws \<open>e\<close>.\<close>

definition open_connection :: "string option \<Rightarrow> App \<Rightarrow> App" where
  "open_connection ctor_error s =
     (let s1 = s\<lparr>connectionStatus := Connecting\<rparr>;
          timeoutId = length (timers s1);
          s2 = s1\<lparr>timers := timers s1 @ [True]\<rparr>
      in case ctor_error of
           None \<Rightarrow>
             s2\<lparr>sockets := sockets s2 @
                   [\<lparr>ws_readyState = CONNECTING, ws_sent = [], ws_timeoutId = timeoutId\<rparr>],
                calls := calls s2 @ [NewWebSocket (length (sockets s2))]\<rparr>
         | Some error \<Rightarrow>
             (log (''Error creating WebSocket: '' @ error) (clearTimeout timeoutId s2))
               \<lparr>connectionStatus := ConnectionError\<rparr>)"

definition handleConnect :: "string option \<Rightarrow> App \<Rightarrow> App" where
  "handleConnect ctor_error s =
     (case (if connectionStatus s = Connected \<or> connectionStatus s = Connecting
            then webSocketRef s else None) of
        Some webSocket \<Rightarrow> manual_disconnect webSocket s
      | None \<Rightarrow>
          if connectionStatus s = Connecting then s else open_connection ctor_error s)"

text \<open>The timer callback and the four socket handlers installed by \<open>handleConnect\<close>.\<close>

definition on_timeout :: "App \<Rightarrow> App" where
  "on_timeout s = (log ''Connection timeout'' s)\<lparr>connectionStatus := ConnectionError\<rparr>"

definition onopen :: "nat \<Rightarrow> App \<Rightarrow> App" where
  "onopen newSocket s =
     log ''Connected to signaling server''
       ((clearTimeout (ws_timeoutId (sockets s ! newSocket)) s)
          \<lparr>webSocketRef := Some newSocket, connectionStatus := Connected\<rparr>)"

text \<open>\<open>data\<close> is \<open>Inl e\<close> when \<open>JSON.parse\<close> throws \<open>e\<close>, else the parsed message.\<close>

definition onmessage :: "string + message \<Rightarrow> App \<Rightarrow> App" where
  "onmessage data s =
     (case data of
        Inr m \<Rightarrow> log ''New message from signaling server'' (handleSignalingMessage m s)
      | Inl error \<Rightarrow> log (''Error parsing message: '' @ error) s)"

definition onclose :: "App \<Rightarrow> App" where
  "onclose s =
     log ''Disconnected from signaling server''
       (s\<lparr>webSocketRef := None, connectionStatus := Disconnected\<rparr>)"

text \<open>The error is an \<open>Event\<close> object, which a template literal prints as below.\<close>

definition onerror :: "nat \<Rightarrow> App \<Rightarrow> App" where
  "onerror newSocket s =
     (log ''WebSocket error: [object Event]''
        (clearTimeout (ws_timeoutId (sockets s ! newSocket)) s))
       \<lparr>connectionStatus := ConnectionError\<rparr>"

section \<open>The event loop\<close>

text \<open>
  Handlers run one at a time, each started by one event: a click on the connect button,
  a choice in the streamer list (rendered only while the status is \<open>Connected\<close>, with
  one option per id of \<open>streamerIds\<close>), the timer, an event of a socket, or the
  settlement of a pending call. An event that cannot occur in the state it is given
  (a timer that is not armed, a socket that does not exist or is in the wrong ready
  state, a call that is not pending) leaves the state as it is.
\<close>

datatype event =
    ClickConnect "string option"
  | SelectStreamer int
  | TimeoutFired nat
  | SocketOpen nat
  | SocketMessage nat "string + message"
  | SocketClose nat
  | SocketError nat
  | Settled nat settlement

definition set_readyState :: "nat \<Rightarrow> readyState \<Rightarrow> App \<Rightarrow> App" where
  "set_readyState k r s = s\<lparr>sockets := (sockets s)[k := (sockets s ! k)\<lparr>ws_readyState := r\<rparr>]\<rparr>"

fun step :: "event \<Rightarrow> App \<Rightarrow> App" where
  "step (ClickConnect ctor_error) s = handleConnect ctor_error s"
| "step (SelectStreamer streamerId) s =
     (if connectionStatus s = Connected \<and> streamerId \<in> set (streamerIds s)
      then selectStreamer streamerId s else s)"
| "step (TimeoutFired t) s =
     (if t < length (timers s) \<and> timers s ! t
      then on_timeout (s\<lparr>timers := (timers s)[t := False]\<rparr>) else s)"
| "step (SocketOpen k) s =
     (if k < length (sockets s) \<and> ws_readyState (sockets s ! k) = CONNECTING
      then onopen k (set_readyState k OPEN s) else s)"
| "step (SocketMessage k data) s =
     (if k < length (sockets s) \<and> ws_readyState (sockets s ! k) = OPEN
      then onmessage data s else s)"
| "step (SocketClose k) s =
     (if k < length (sockets s) \<and> ws_readyState (sockets s ! k) \<noteq> CLOSED
      then onclose (set_readyState k CLOSED s) else s)"
| "step (SocketError k) s =
     (if k < length (sockets s) \<and> ws_readyState (sockets s ! k) \<noteq> CLOSED
      then onerror k s else s)"
| "step (Settled n r) s =
     (if n < length (pending s)
      then resume (pending s ! n) r (s\<lparr>pending := take n (pending s) @ drop (Suc n) (pending s)\<rparr>)
      else s)"

fun run :: "event list \<Rightarrow> App \<Rightarrow> App" where
  "run [] s = s"
| "run (e # es) s = run es (step e s)"

section \<open>Observations used in the statements\<close>

text \<open>The key set of the peer registry.\<close>

definition registry_keys :: "App \<Rightarrow> int set" where
  "registry_keys s = fst ` set (DAList.impl_of (streamersRef s))"

text \<open>How many entries the registry holds for one streamer id.\<close>

definition entries_for :: "int \<Rightarrow> App \<Rightarrow> nat" where
  "entries_for i s = length (filter (\<lambda>(k, pc). k = i) (DAList.impl_of (streamersRef s)))"

text \<open>Routing a sequence of inbound messages, one after the other.\<close>

fun route_all :: "message list \<Rightarrow> App \<Rightarrow> App" where
  "route_all [] s = s"
| "route_all (m # ms) s = route_all ms (handleSignalingMessage m s)"

text \<open>
  One offer, followed to its end with nothing in between: the handler runs up to its
  first \<open>await\<close>, and each pending call of it settles in turn. The outcome says how far
  the negotiation gets: which call is rejected, with which error, or that all three are
  fulfilled, and with which answer.
\<close>

datatype offer_outcome =
    RemoteRejected string
  | AnswerRejected string
  | LocalRejected sdp string
  | Negotiated sdp

fun offer_settlements :: "offer_outcome \<Rightarrow> settlement list" where
  "offer_settlements (RemoteRejected error) = [Rejected error]"
| "offer_settlements (AnswerRejected error) = [Fulfilled, Rejected error]"
| "offer_settlements (LocalRejected answer error) = [Fulfilled, FulfilledWith answer, Rejected error]"
| "offer_settlements (Negotiated answer) = [Fulfilled, FulfilledWith answer, Fulfilled]"

definition settle_last :: "settlement \<Rightarrow> App \<Rightarrow> App" where
  "settle_last r s = step (Settled (length (pending s) - 1) r) s"

fun settle_each :: "settlement list \<Rightarrow> App \<Rightarrow> App" where
  "settle_each [] s = s"
| "settle_each (r # rs) s = settle_each rs (settle_last r s)"

definition offer_to_completion :: "sdp \<Rightarrow> int \<Rightarrow> offer_outcome \<Rightarrow> App \<Rightarrow> App" where
  "offer_to_completion offer sender outcome s =
     settle_each (offer_settlements outcome) (handleOffer offer sender s)"

text \<open>How often the status changes to \<open>st\<close> from another value while the events run.\<close>

fun changes_to :: "ConnectionStatus \<Rightarrow> event list \<Rightarrow> App \<Rightarrow> nat" where
  "changes_to st [] s = 0"
| "changes_to st (e # es) s =
     (if connectionStatus (step e s) = st \<and> connectionStatus s \<noteq> st then 1 else 0)
       + changes_to st es (step e s)"

text \<open>Every handle that the state holds points into its store.\<close>

definition handles_valid :: "App \<Rightarrow> bool" where
  "handles_valid s \<longleftrightarrow>
     list_all (\<lambda>(i, pc). pc < length (pcs s)) (DAList.impl_of (streamersRef s)) \<and>
     (case webSocketRef s of None \<Rightarrow> True | Some k \<Rightarrow> k < length (sockets s))"

text \<open>The peer connection of an offer once the handler has registered its three listeners.\<close>

definition offer_listened :: "nat \<Rightarrow> App \<Rightarrow> RTCPeerConnection" where
  "offer_listened pc s =
     (pcs s ! pc)\<lparr>pc_listeners := pc_listeners (pcs s ! pc) @ [icecandidate, connectionstatechange, track]\<rparr>"

text \<open>Events that set the status to \<open>ConnectionError\<close>: a socket error and a timer.\<close>

fun late_failure :: "event \<Rightarrow> bool" where
  "late_failure (SocketError k) = True"
| "late_failure (TimeoutFired t) = True"
| "late_failure _ = False"

text \<open>
  What most handlers leave alone: the channel handle, the status, the number of sockets;
  and what they may do to the registry: only add entries whose handle is valid.
\<close>

definition session_kept :: "App \<Rightarrow> App \<Rightarrow> bool" where
  "session_kept s s' \<longleftrightarrow>
     webSocketRef s' = webSocketRef s \<and> connectionStatus s' = connectionStatus s \<and>
     length (sockets s') = length (sockets s) \<and> length (pcs s) \<le> length (pcs s') \<and>
     (\<forall>(i, pc) \<in> set (DAList.impl_of (streamersRef s')).
        (i, pc) \<in> set (DAList.impl_of (streamersRef s)) \<or> pc < length (pcs s'))"

text \<open>The invariant of the event loop.\<close>

definition session_inv :: "App \<Rightarrow> bool" where
  "session_inv s \<longleftrightarrow>
     handles_valid s \<and> (connectionStatus s = Connected \<longrightarrow> webSocketRef s \<noteq> None)"

section \<open>Basic facts\<close>

lemmas base_defs = log_def console_log_def updateStreamerIds_def new_RTCPeerConnection_def
  pc_update_def addEventListener_def pc_close_def ws_close_def ws_send_def clearTimeout_def await_def

lemmas eval_defs = init_def base_defs handleSignalingMessage_def handleConnectMessage_def
  handleNewStreamer_def handleStreamerDisconnection_def handleOffer_def handleIceCandidate_def
  sendToPeer_def sendSubscribe_def selectStreamer_def manual_disconnect_def open_connection_def
  handleConnect_def on_timeout_def onopen_def onmessage_def onclose_def onerror_def
  set_readyState_def catch_offer_def catch_candidate_def fresh_pc_def
  DAList.update.rep_eq DAList.empty.rep_eq DAList.delete.rep_eq DAList.lookup.rep_eq Let_def

lemma update_absent: "map_of al k = None \<Longrightarrow> AList.update k v al = al @ [(k, v)]"
  by (induction al) (auto split: if_splits)

lemma count_key_distinct:
  "distinct (map fst al) \<Longrightarrow>
   length (filter (\<lambda>(k, v). k = i) al) = (if map_of al i = None then 0 else 1)"
proof (induction al)
  case Nil
  then show ?case by simp
next
  case (Cons a al)
  then show ?case by (cases a) (auto simp: map_of_eq_None_iff image_iff)
qed

lemma entries_for_lookup:
  "entries_for i s = (if DAList.lookup (streamersRef s) i = None then 0 else 1)"
  unfolding entries_for_def DAList.lookup.rep_eq by (rule count_key_distinct) simp

lemma registry_keys_lookup:
  "i \<in> registry_keys s \<longleftrightarrow> DAList.lookup (streamersRef s) i \<noteq> None"
  by (simp add: registry_keys_def DAList.lookup.rep_eq map_of_eq_None_iff)

subsection \<open>The registry under the three membership handlers\<close>

lemma keys_console_log: "registry_keys (console_log l s) = registry_keys s"
  by (simp add: registry_keys_def console_log_def)

lemma keys_handleNewStreamer:
  "registry_keys (handleNewStreamer i s) = insert i (registry_keys s)"
  by (auto simp: registry_keys_lookup handleNewStreamer_def Let_def base_defs
      DAList.lookup_update split: if_splits)

lemma keys_handleStreamerDisconnection:
  "registry_keys (handleStreamerDisconnection i s) = registry_keys s - {i}"
  by (auto simp: registry_keys_lookup handleStreamerDisconnection_def Let_def base_defs
      split: option.splits if_splits)

lemma keys_roster_forEach: "registry_keys (roster_forEach r s) = registry_keys s \<union> set r"
  by (induction r arbitrary: s)
    (auto simp: registry_keys_lookup Let_def base_defs DAList.lookup_update split: if_splits)

lemma keys_handleConnectMessage:
  "registry_keys (handleConnectMessage c r s) = registry_keys s \<union> set r"
  using keys_roster_forEach [of r "s\<lparr>client_id := c\<rparr>"]
  by (simp add: handleConnectMessage_def registry_keys_def base_defs)

lemma keys_route_all:
  assumes "\<forall>m\<in>set ms. \<exists>i. m = NewStreamerMessage i \<or> m = DisconnectedMessage i"
  shows "registry_keys (route_all ms s) =
     {i. (i \<in> registry_keys s \<and> DisconnectedMessage i \<notin> set ms) \<or>
         (\<exists>pre post. ms = pre @ NewStreamerMessage i # post \<and> DisconnectedMessage i \<notin> set post)}"
  using assms
proof (induction ms arbitrary: s)
  case Nil
  then show ?case by simp
next
  case (Cons m ms)
  then obtain j where m: "m = NewStreamerMessage j \<or> m = DisconnectedMessage j"
    by auto
  have IH: "registry_keys (route_all ms (handleSignalingMessage m s)) =
     {i. (i \<in> registry_keys (handleSignalingMessage m s) \<and> DisconnectedMessage i \<notin> set ms) \<or>
         (\<exists>pre post. ms = pre @ NewStreamerMessage i # post \<and> DisconnectedMessage i \<notin> set post)}"
    using Cons by simp
  from m show ?case
  proof
    assume mj: "m = NewStreamerMessage j"
    have k: "registry_keys (handleSignalingMessage m s) = insert j (registry_keys s)"
      by (simp add: mj handleSignalingMessage_def keys_handleNewStreamer keys_console_log)
    show ?thesis
      unfolding route_all.simps IH k by (auto simp: mj Cons_eq_append_conv)
  next
    assume mj: "m = DisconnectedMessage j"
    have k: "registry_keys (handleSignalingMessage m s) = registry_keys s - {j}"
      by (simp add: mj handleSignalingMessage_def keys_handleStreamerDisconnection
          keys_console_log)
    show ?thesis
      unfolding route_all.simps IH k by (auto simp: mj Cons_eq_append_conv)
  qed
qed

subsection \<open>The roster loop\<close>

lemma roster_forEach_append: "roster_forEach (a @ b) s = roster_forEach b (roster_forEach a s)"
  by (induction a arbitrary: s) simp_all

lemma lookup_roster_forEach_mono:
  "DAList.lookup (streamersRef s) k \<noteq> None \<Longrightarrow>
   DAList.lookup (streamersRef (roster_forEach r s)) k = DAList.lookup (streamersRef s) k"
  by (induction r arbitrary: s) (auto simp: Let_def base_defs DAList.lookup_update)

lemma lookup_roster_forEach_mem:
  "k \<in> set r \<Longrightarrow> DAList.lookup (streamersRef (roster_forEach r s)) k \<noteq> None"
  using keys_roster_forEach [of r s] registry_keys_lookup [of k "roster_forEach r s"] by auto

lemma roster_forEach_known:
  "\<forall>k\<in>set r. DAList.lookup (streamersRef s) k \<noteq> None \<Longrightarrow> roster_forEach r s = s"
  by (induction r arbitrary: s) auto

lemma roster_forEach_twice: "roster_forEach r (roster_forEach r s) = roster_forEach r s"
  by (rule roster_forEach_known) (simp add: lookup_roster_forEach_mem)

lemma roster_forEach_extends:
  "\<exists>es ps. DAList.impl_of (streamersRef (roster_forEach r s)) = DAList.impl_of (streamersRef s) @ es
       \<and> pcs (roster_forEach r s) = pcs s @ ps"
proof (induction r arbitrary: s)
  case Nil
  then show ?case by simp
next
  case (Cons a r)
  let ?s' = "(if DAList.lookup (streamersRef s) a = None
        then (let s1 = log (''Creating connection with streamer '' @ show_num a) s;
                  pc = length (pcs s1);
                  s2 = new_RTCPeerConnection s1
              in s2\<lparr>streamersRef := DAList.update a pc (streamersRef s2)\<rparr>)
        else s)"
  have 1: "\<exists>es ps. DAList.impl_of (streamersRef ?s') = DAList.impl_of (streamersRef s) @ es
       \<and> pcs ?s' = pcs s @ ps"
    by (auto simp: Let_def base_defs DAList.update.rep_eq DAList.lookup.rep_eq update_absent)
  from Cons [of ?s'] 1 show ?case
    by (simp only: roster_forEach.simps) (metis append.assoc)
qed

section \<open>The peer registry follows the announcements\<close>

text \<open>
  Claim C1. Start from a state whose registry is empty, route a \<open>connect\<close> message with a
  roster, then any sequence of \<open>new-streamer\<close> and \<open>streamer-disconnected\<close> messages.
  The key set of the registry is then exactly the set of ids that are in the roster
  and were never disconnected, or were announced by a \<open>new-streamer\<close> message with no
  \<open>streamer-disconnected\<close> message for the same id after it.
\<close>

theorem registry_tracks_announcements:
  assumes "registry_keys s = {}"
    and "\<forall>m\<in>set ms. \<exists>i. m = NewStreamerMessage i \<or> m = DisconnectedMessage i"
  shows "registry_keys (route_all ms (handleSignalingMessage (ConnectMessage cid roster) s)) =
     {i. (i \<in> set roster \<and> DisconnectedMessage i \<notin> set ms) \<or>
         (\<exists>pre post. ms = pre @ NewStreamerMessage i # post \<and> DisconnectedMessage i \<notin> set post)}"
proof -
  have "registry_keys (handleSignalingMessage (ConnectMessage cid roster) s) = set roster"
    using assms(1)
    by (simp add: handleSignalingMessage_def keys_handleConnectMessage keys_console_log)
  then show ?thesis
    using keys_route_all [OF assms(2)] by simp
qed

theorem registry_tracks_announcements_witness:
  "registry_keys init = {} \<and>
   registry_keys (route_all [NewStreamerMessage 3, DisconnectedMessage 1, DisconnectedMessage 3]
      (handleSignalingMessage (ConnectMessage 7 [1, 2]) init)) =
     {i. (i \<in> set [1, 2] \<and>
          DisconnectedMessage i \<notin>
            set [NewStreamerMessage 3, DisconnectedMessage 1, DisconnectedMessage 3]) \<or>
         (\<exists>pre post. [NewStreamerMessage 3, DisconnectedMessage 1, DisconnectedMessage 3]
              = pre @ NewStreamerMessage i # post \<and> DisconnectedMessage i \<notin> set post)}"
proof -
  have a: "registry_keys init = {}"
    by (simp add: registry_keys_def init_def DAList.empty.rep_eq)
  have b: "\<forall>m\<in>set [NewStreamerMessage 3, DisconnectedMessage 1, DisconnectedMessage 3].
      \<exists>i. m = NewStreamerMessage i \<or> m = DisconnectedMessage i"
    by simp
  show ?thesis
    by (rule conjI [OF a registry_tracks_announcements [OF a b]])
qed

text \<open>The same run, evaluated: only streamer 2 is left.\<close>

lemma scenario_keys:
  "registry_keys (route_all [NewStreamerMessage 3, DisconnectedMessage 1, DisconnectedMessage 3]
      (handleSignalingMessage (ConnectMessage 7 [1, 2]) init)) = {2}"
  by (simp add: registry_keys_def eval_defs)

section \<open>Upsert is idempotent\<close>

text \<open>
  Claim C7. Announcing a streamer twice is the same as announcing it once. A second
  \<open>new-streamer\<close> message for the same id leaves the whole state as the first one left
  it; so does a roster entry that is repeated, and a roster that is walked again. After
  the upsert the registry holds exactly one entry for the id, and the two upserts
  together have created one peer connection when the id was not known before and none
  when it was. A \<open>connect\<close> message that is repeated leaves the registry and the peer
  connections as the first one left them.
\<close>

theorem upsert_idempotent:
  "handleNewStreamer i (handleNewStreamer i s) = handleNewStreamer i s \<and>
   roster_forEach [i, i] s = roster_forEach [i] s \<and>
   roster_forEach roster (roster_forEach roster s) = roster_forEach roster s \<and>
   entries_for i (handleNewStreamer i s) = 1 \<and>
   entries_for i (roster_forEach [i, i] s) = 1 \<and>
   length (pcs (handleNewStreamer i (handleNewStreamer i s))) =
     length (pcs s) + (if i \<in> registry_keys s then 0 else 1) \<and>
   length (pcs (roster_forEach [i, i] s)) =
     length (pcs s) + (if i \<in> registry_keys s then 0 else 1) \<and>
   streamersRef (handleConnectMessage c2 roster (handleConnectMessage c1 roster s)) =
     streamersRef (handleConnectMessage c1 roster s) \<and>
   pcs (handleConnectMessage c2 roster (handleConnectMessage c1 roster s)) =
     pcs (handleConnectMessage c1 roster s)"
proof -
  have a: "handleNewStreamer i (handleNewStreamer i s) = handleNewStreamer i s"
    by (simp add: handleNewStreamer_def Let_def base_defs)
  have b: "roster_forEach [i, i] s = roster_forEach [i] s"
    using roster_forEach_twice [of "[i]" s] roster_forEach_append [of "[i]" "[i]" s] by simp
  have c: "entries_for i (handleNewStreamer i s) = 1"
    by (simp add: entries_for_lookup handleNewStreamer_def Let_def base_defs)
  have d: "entries_for i (roster_forEach [i, i] s) = 1"
    unfolding b by (simp add: entries_for_lookup Let_def base_defs)
  have e: "length (pcs (handleNewStreamer i (handleNewStreamer i s))) =
     length (pcs s) + (if i \<in> registry_keys s then 0 else 1)"
    unfolding a by (simp add: registry_keys_lookup handleNewStreamer_def Let_def base_defs)
  have f: "length (pcs (roster_forEach [i, i] s)) =
     length (pcs s) + (if i \<in> registry_keys s then 0 else 1)"
    unfolding b by (simp add: registry_keys_lookup Let_def base_defs)
  have g: "roster_forEach roster
       ((log (''Assigned clientId: '' @ show_num c1)
          (updateStreamerIds (roster_forEach roster (s\<lparr>client_id := c1\<rparr>))))\<lparr>client_id := c2\<rparr>) =
     (log (''Assigned clientId: '' @ show_num c1)
          (updateStreamerIds (roster_forEach roster (s\<lparr>client_id := c1\<rparr>))))\<lparr>client_id := c2\<rparr>"
    by (rule roster_forEach_known) (simp add: base_defs lookup_roster_forEach_mem)
  have h: "streamersRef (handleConnectMessage c2 roster (handleConnectMessage c1 roster s)) =
     streamersRef (handleConnectMessage c1 roster s)"
    unfolding handleConnectMessage_def [of c2] unfolding handleConnectMessage_def [of c1] g
    by (simp add: base_defs)
  have k: "pcs (handleConnectMessage c2 roster (handleConnectMessage c1 roster s)) =
     pcs (handleConnectMessage c1 roster s)"
    unfolding handleConnectMessage_def [of c2] unfolding handleConnectMessage_def [of c1] g
    by (simp add: base_defs)
  from a b roster_forEach_twice c d e f h k show ?thesis by blast
qed

theorem upsert_idempotent_witness:
  "entries_for 1 (handleNewStreamer 1 init) = 1 \<and>
   length (pcs (handleNewStreamer 1 (handleNewStreamer 1 init))) = 1 \<and>
   length (pcs (roster_forEach [1, 1] init)) = 1"
proof -
  have n: "1 \<notin> registry_keys init" "length (pcs init) = 0"
    by (simp_all add: registry_keys_def init_def DAList.empty.rep_eq)
  note t = upsert_idempotent [of 1 init "[]" 0 0]
  from t have a: "entries_for 1 (handleNewStreamer 1 init) = 1"
    by (elim conjE)
  from t have b: "length (pcs (handleNewStreamer 1 (handleNewStreamer 1 init))) =
     length (pcs init) + (if 1 \<in> registry_keys init then 0 else 1)"
    by (elim conjE)
  from t have c: "length (pcs (roster_forEach [1, 1] init)) =
     length (pcs init) + (if 1 \<in> registry_keys init then 0 else 1)"
    by (elim conjE)
  from a b c n show ?thesis
    by (simp only: if_False add_0 simp_thms)
qed

section \<open>A \<open>connect\<close> message overwrites the client id and keeps the entries\<close>

text \<open>
  Claim C10. Every \<open>connect\<close> message stores the id it carries, also when it is a
  second \<open>connect\<close> message with another id: the last one wins. The entries that the
  registry held before are still there, in their places, with the same peer connections,
  and the peer connections that existed before are as they were: the handler only
  appends new entries and new peer connections.
\<close>

theorem connect_message_overwrites_id:
  "client_id (handleConnectMessage mid roster s) = mid \<and>
   client_id (handleConnectMessage mid2 roster2 (handleConnectMessage mid roster s)) = mid2 \<and>
   take (length (DAList.impl_of (streamersRef s)))
     (DAList.impl_of (streamersRef (handleConnectMessage mid roster s))) =
     DAList.impl_of (streamersRef s) \<and>
   take (length (pcs s)) (pcs (handleConnectMessage mid roster s)) = pcs s"
proof -
  have id_forEach: "client_id (roster_forEach r t) = client_id t" for r t
    by (induction r arbitrary: t) (simp_all add: Let_def base_defs)
  have a: "client_id (handleConnectMessage m r t) = m" for m r t
    by (simp add: handleConnectMessage_def base_defs id_forEach)
  obtain es ps where
    "DAList.impl_of (streamersRef (roster_forEach roster (s\<lparr>client_id := mid\<rparr>))) =
       DAList.impl_of (streamersRef s) @ es"
    "pcs (roster_forEach roster (s\<lparr>client_id := mid\<rparr>)) = pcs s @ ps"
    using roster_forEach_extends [of roster "s\<lparr>client_id := mid\<rparr>"] by auto
  then have "take (length (DAList.impl_of (streamersRef s)))
     (DAList.impl_of (streamersRef (handleConnectMessage mid roster s))) =
     DAList.impl_of (streamersRef s)"
    "take (length (pcs s)) (pcs (handleConnectMessage mid roster s)) = pcs s"
    by (simp_all add: handleConnectMessage_def base_defs)
  with a show ?thesis by simp
qed

section \<open>Removing a streamer\<close>

text \<open>
  Claim C6. The \<open>streamer-disconnected\<close> handler does nothing at all when the id is not
  in the registry. When the id is there, the handler first closes the peer connection of
  the entry (in the state after that call the entry is still in the registry, and its
  peer connection is closed) and then deletes the entry: in the final state the peer
  connection is closed, the id is neither in the registry nor in the list shown to the
  user, and the only call made to a peer connection or a socket is that \<open>close\<close>.
\<close>

theorem remove_closes_then_discards:
  "(DAList.lookup (streamersRef s) i = None \<longrightarrow> handleStreamerDisconnection i s = s) \<and>
   (DAList.lookup (streamersRef s) i = Some pc \<and> pc < length (pcs s) \<longrightarrow>
      pc_closed (pcs (pc_close pc s) ! pc) \<and>
      DAList.lookup (streamersRef (pc_close pc s)) i = Some pc \<and>
      handleStreamerDisconnection i s =
        log (''Streamer '' @ show_num i @ '' disconnected'')
          (updateStreamerIds
            ((pc_close pc s)\<lparr>streamersRef := DAList.delete i (streamersRef (pc_close pc s))\<rparr>)) \<and>
      pc_closed (pcs (handleStreamerDisconnection i s) ! pc) \<and>
      DAList.lookup (streamersRef (handleStreamerDisconnection i s)) i = None \<and>
      i \<notin> set (streamerIds (handleStreamerDisconnection i s)) \<and>
      calls (handleStreamerDisconnection i s) = calls s @ [PcClose pc])"
proof -
  have "i \<notin> fst ` set (AList.delete i (DAList.impl_of (streamersRef s)))"
    by (rule delete_notin_dom)
  then show ?thesis
    by (simp add: handleStreamerDisconnection_def Let_def base_defs DAList.delete.rep_eq)
qed

theorem remove_closes_then_discards_witness:
  "handleStreamerDisconnection 5 init = init \<and>
   pc_closed (pcs (handleStreamerDisconnection 1 (handleNewStreamer 1 init)) ! 0) \<and>
   DAList.lookup (streamersRef (handleStreamerDisconnection 1 (handleNewStreamer 1 init))) 1 = None \<and>
   calls (handleStreamerDisconnection 1 (handleNewStreamer 1 init)) =
     calls (handleNewStreamer 1 init) @ [PcClose 0]"
proof -
  have a: "DAList.lookup (streamersRef init) 5 = None"
    by (simp add: init_def)
  have b: "DAList.lookup (streamersRef (handleNewStreamer 1 init)) 1 = Some 0 \<and>
           0 < length (pcs (handleNewStreamer 1 init))"
    by (simp add: handleNewStreamer_def Let_def base_defs init_def)
  note 1 = remove_closes_then_discards [of init 5 0, THEN conjunct1, THEN mp, OF a]
  note 2 = remove_closes_then_discards [of "handleNewStreamer 1 init" 1 0, THEN conjunct2,
      THEN mp, OF b]
  from 1 2 show ?thesis by blast
qed

section \<open>Messages from an unknown sender\<close>

text \<open>
  Claim C4. An \<open>offer\<close> or \<open>ice-candidate\<close> message whose sender is not in the registry
  changes nothing but the logs: the registry, the peer connections, the status, the
  client id, the sockets and the pending calls are as before. The \<open>offer\<close> handler
  appends two lines to the log feed (and to the console); the \<open>ice-candidate\<close> handler
  writes its line to the console only. The handlers have no failing branch, so the socket's
  message handler goes on to its own log line.
\<close>

theorem unknown_sender_dropped:
  assumes "DAList.lookup (streamersRef s) sender = None"
  shows "handleSignalingMessage (OfferMessage offer sender) s =
      s\<lparr>logs := logs s @ [''Offer received from streamer '' @ show_num sender,
                           ''Received offer from unknown streamer '' @ show_num sender],
        console := console s @ [''Received message:'', ''Current streamers:'',
                           ''Offer received from streamer '' @ show_num sender,
                           ''Offer received. Current streamers:'',
                           ''Received offer from unknown streamer '' @ show_num sender]\<rparr> \<and>
    handleSignalingMessage (CandidateMessage cand sender) s =
      s\<lparr>console := console s @ [''Received message:'', ''Current streamers:'',
                           ''Received ICE candidate for unknown streamer '' @ show_num sender]\<rparr> \<and>
    onmessage (Inr (CandidateMessage cand sender)) s =
      log ''New message from signaling server''
        (s\<lparr>console := console s @ [''Received message:'', ''Current streamers:'',
                           ''Received ICE candidate for unknown streamer '' @ show_num sender]\<rparr>)"
  using assms
  by (simp add: handleSignalingMessage_def handleOffer_def handleIceCandidate_def onmessage_def
      Let_def log_def console_log_def)

theorem unknown_sender_dropped_witness:
  "streamersRef (handleSignalingMessage (OfferMessage ''v=0'' 3) init) = streamersRef init \<and>
   pcs (handleSignalingMessage (OfferMessage ''v=0'' 3) init) = pcs init \<and>
   connectionStatus (handleSignalingMessage (OfferMessage ''v=0'' 3) init) = connectionStatus init \<and>
   pending (handleSignalingMessage (OfferMessage ''v=0'' 3) init) = pending init \<and>
   length (logs (handleSignalingMessage (OfferMessage ''v=0'' 3) init)) = 2 \<and>
   logs (handleSignalingMessage (CandidateMessage ''c'' 3) init) = [] \<and>
   length (console (handleSignalingMessage (CandidateMessage ''c'' 3) init)) = 3"
proof -
  have a: "DAList.lookup (streamersRef init) 3 = None"
    by (simp add: init_def)
  show ?thesis
    using unknown_sender_dropped [OF a, of "''v=0''" "''c''"]
    by (simp add: init_def)
qed

section \<open>The close event of the channel\<close>

text \<open>
  Claim C9. The close handler sets the status to \<open>Disconnected\<close>, clears the channel
  handle and appends one log line; it changes nothing else. For the close event of a
  socket this means: the registry keeps all its entries, no peer connection changes, and
  no call is made to a peer connection or a socket (so none is closed); the client id,
  the list of streamer ids, the timers and the pending calls are as before, and the
  socket of the event is marked closed.
\<close>

theorem close_event_keeps_registry:
  "onclose s = s\<lparr>webSocketRef := None, connectionStatus := Disconnected,
                 logs := logs s @ [''Disconnected from signaling server''],
                 console := console s @ [''Disconnected from signaling server'']\<rparr> \<and>
   streamersRef (step (SocketClose k) s) = streamersRef s \<and>
   pcs (step (SocketClose k) s) = pcs s \<and>
   calls (step (SocketClose k) s) = calls s \<and>
   streamerIds (step (SocketClose k) s) = streamerIds s \<and>
   client_id (step (SocketClose k) s) = client_id s \<and>
   timers (step (SocketClose k) s) = timers s \<and>
   pending (step (SocketClose k) s) = pending s \<and>
   (k < length (sockets s) \<and> ws_readyState (sockets s ! k) \<noteq> CLOSED \<longrightarrow>
      connectionStatus (step (SocketClose k) s) = Disconnected \<and>
      webSocketRef (step (SocketClose k) s) = None \<and>
      sockets (step (SocketClose k) s) = (sockets s)[k := (sockets s ! k)\<lparr>ws_readyState := CLOSED\<rparr>])"
  by (simp add: onclose_def set_readyState_def log_def)


theorem close_event_keeps_registry_witness:
  "connectionStatus (run [ClickConnect None, SocketOpen 0,
       SocketMessage 0 (Inr (ConnectMessage 7 [1, 2])), SocketClose 0] init) = Disconnected \<and>
   webSocketRef (run [ClickConnect None, SocketOpen 0,
       SocketMessage 0 (Inr (ConnectMessage 7 [1, 2])), SocketClose 0] init) = None \<and>
   map fst (DAList.impl_of (streamersRef (run [ClickConnect None, SocketOpen 0,
       SocketMessage 0 (Inr (ConnectMessage 7 [1, 2])), SocketClose 0] init))) = [1, 2] \<and>
   map pc_closed (pcs (run [ClickConnect None, SocketOpen 0,
       SocketMessage 0 (Inr (ConnectMessage 7 [1, 2])), SocketClose 0] init)) = [False, False]"
proof -
  let ?s = "run [ClickConnect None, SocketOpen 0,
       SocketMessage 0 (Inr (ConnectMessage 7 [1, 2]))] init"
  have s: "sockets ?s = [\<lparr>ws_readyState = OPEN, ws_sent = [], ws_timeoutId = 0\<rparr>]"
      "map fst (DAList.impl_of (streamersRef ?s)) = [1, 2]"
      "map pc_closed (pcs ?s) = [False, False]"
    by (simp_all add: eval_defs)
  then have e: "0 < length (sockets ?s) \<and> ws_readyState (sockets ?s ! 0) \<noteq> CLOSED"
    by simp
  have r: "run [ClickConnect None, SocketOpen 0,
       SocketMessage 0 (Inr (ConnectMessage 7 [1, 2])), SocketClose 0] init =
       step (SocketClose 0) ?s"
    by simp
  note t = close_event_keeps_registry [of ?s 0]
  from t e have 1: "connectionStatus (step (SocketClose 0) ?s) = Disconnected"
    "webSocketRef (step (SocketClose 0) ?s) = None" by blast+
  from t have 2: "streamersRef (step (SocketClose 0) ?s) = streamersRef ?s"
    "pcs (step (SocketClose 0) ?s) = pcs ?s" by blast+
  show ?thesis unfolding r 1 2 using s by simp
qed

section \<open>Listeners are registered more than once\<close>

text \<open>Every offer from a known streamer registers the three listeners once more, and so
  does every subscription as long as \<open>pc.eventListeners\<close> is undefined.\<close>

lemma handleOffer_registers_again:
  assumes "DAList.lookup (streamersRef s) sender = Some pc" and "pc < length (pcs s)"
  shows "pc_listeners (pcs (handleOffer offer sender s) ! pc) =
     pc_listeners (pcs s ! pc) @ [icecandidate, connectionstatechange, track]"
  using assms by (simp add: handleOffer_def Let_def base_defs)

lemma sendSubscribe_registers_again:
  assumes "DAList.lookup (streamersRef s) streamerId = Some pc" and "pc < length (pcs s)"
    and "pc_eventListeners (pcs s ! pc) = None"
  shows "pc_listeners (pcs (sendSubscribe streamerId s) ! pc) =
     pc_listeners (pcs s ! pc) @ [icecandidate, connectionstatechange, track]"
  using assms by (simp add: sendSubscribe_def sendToPeer_def Let_def base_defs split: option.splits)

text \<open>
  Claim C2 says that each of the three listeners is registered at most once on a peer
  connection. The code registers them on every offer without any check, and
  \<open>sendSubscribe\<close> checks flags that nothing ever sets. In the ordinary flow (the user
  subscribes to streamer 1, the streamer answers with an offer) every listener is
  registered twice; so it is after two subscriptions, and after two offers.
\<close>

theorem listeners_registered_twice:
  "pc_listeners (pcs (run [ClickConnect None, SocketOpen 0,
       SocketMessage 0 (Inr (ConnectMessage 7 [1])), SelectStreamer 1,
       SocketMessage 0 (Inr (OfferMessage ''v=0'' 1))] init) ! 0) =
     [icecandidate, connectionstatechange, track, icecandidate, connectionstatechange, track] \<and>
   pc_listeners (pcs (run [ClickConnect None, SocketOpen 0,
       SocketMessage 0 (Inr (ConnectMessage 7 [1])), SelectStreamer 1, SelectStreamer 1] init) ! 0) =
     [icecandidate, connectionstatechange, track, icecandidate, connectionstatechange, track] \<and>
   pc_listeners (pcs (run [ClickConnect None, SocketOpen 0,
       SocketMessage 0 (Inr (ConnectMessage 7 [1])),
       SocketMessage 0 (Inr (OfferMessage ''v=0'' 1)),
       SocketMessage 0 (Inr (OfferMessage ''v=0'' 1))] init) ! 0) =
     [icecandidate, connectionstatechange, track, icecandidate, connectionstatechange, track]"
  by (simp add: eval_defs)

section \<open>The session under the handlers\<close>

subsection \<open>Handlers that keep the session\<close>

lemma session_kept_refl: "session_kept s s"
  by (auto simp: session_kept_def)

lemma session_kept_trans: "session_kept a b \<Longrightarrow> session_kept b c \<Longrightarrow> session_kept a c"
  unfolding session_kept_def by (fastforce)

lemma session_kept_inv: "session_kept s s' \<Longrightarrow> session_inv s \<Longrightarrow> session_inv s'"
  unfolding session_kept_def session_inv_def handles_valid_def list_all_iff
  by (fastforce split: option.splits)

lemma set_update_subset: "set (AList.update k v al) \<subseteq> insert (k, v) (set al)"
  by (induction al) auto

lemma set_delete_subset: "set (AList.delete k al) \<subseteq> set al"
  by (auto simp: AList.delete_eq)

lemma kept_log: "session_kept s (log l s)"
  by (auto simp: session_kept_def log_def)

lemma kept_console_log: "session_kept s (console_log l s)"
  by (auto simp: session_kept_def console_log_def)

lemma kept_sendToPeer: "session_kept s (sendToPeer t d s)"
  by (auto simp: session_kept_def sendToPeer_def base_defs split: option.splits)

lemma kept_addEventListener: "session_kept s (addEventListener pc l s)"
  by (auto simp: session_kept_def base_defs)

lemma kept_handleNewStreamer: "session_kept s (handleNewStreamer i s)"
  using set_update_subset [of i "length (pcs s)" "DAList.impl_of (streamersRef s)"]
  by (auto simp: session_kept_def handleNewStreamer_def Let_def base_defs DAList.update.rep_eq)

lemma kept_handleStreamerDisconnection: "session_kept s (handleStreamerDisconnection i s)"
  using set_delete_subset [of i "DAList.impl_of (streamersRef s)"]
  by (auto simp: session_kept_def handleStreamerDisconnection_def Let_def base_defs
      DAList.delete.rep_eq split: option.splits)

lemma kept_roster_forEach: "session_kept s (roster_forEach r s)"
proof (induction r arbitrary: s)
  case Nil
  then show ?case by (simp add: session_kept_refl)
next
  case (Cons a r)
  let ?s' = "(if DAList.lookup (streamersRef s) a = None
        then (let s1 = log (''Creating connection with streamer '' @ show_num a) s;
                  pc = length (pcs s1);
                  s2 = new_RTCPeerConnection s1
              in s2\<lparr>streamersRef := DAList.update a pc (streamersRef s2)\<rparr>)
        else s)"
  have "session_kept s ?s'"
    using set_update_subset [of a "length (pcs s)" "DAList.impl_of (streamersRef s)"]
    by (auto simp: session_kept_def Let_def base_defs DAList.update.rep_eq)
  moreover have "session_kept ?s' (roster_forEach r ?s')"
    by (rule Cons)
  ultimately have "session_kept s (roster_forEach r ?s')"
    by (rule session_kept_trans)
  then show ?case by simp
qed

lemma kept_handleConnectMessage: "session_kept s (handleConnectMessage c r s)"
proof -
  have "session_kept s (s\<lparr>client_id := c\<rparr>)"
    by (auto simp: session_kept_def)
  moreover have "session_kept (s\<lparr>client_id := c\<rparr>) (roster_forEach r (s\<lparr>client_id := c\<rparr>))"
    by (rule kept_roster_forEach)
  moreover have "session_kept t (log l (updateStreamerIds t))" for t l
    by (auto simp: session_kept_def base_defs)
  ultimately show ?thesis
    unfolding handleConnectMessage_def by (meson session_kept_trans)
qed

lemma kept_handleOffer: "session_kept s (handleOffer offer i s)"
  by (auto simp: session_kept_def handleOffer_def Let_def base_defs split: option.splits)

lemma kept_handleIceCandidate: "session_kept s (handleIceCandidate c i s)"
  by (auto simp: session_kept_def handleIceCandidate_def Let_def base_defs split: option.splits)

lemma kept_handleSignalingMessage: "session_kept s (handleSignalingMessage m s)"
proof -
  let ?s1 = "console_log ''Current streamers:'' (console_log ''Received message:'' s)"
  have 1: "session_kept s ?s1"
    by (auto simp: session_kept_def console_log_def)
  have "session_kept ?s1 (handleSignalingMessage m s)"
    unfolding handleSignalingMessage_def Let_def
    by (cases m)
      (simp_all add: kept_handleConnectMessage kept_handleOffer kept_handleNewStreamer
        kept_handleStreamerDisconnection kept_handleIceCandidate kept_console_log)
  with 1 show ?thesis by (rule session_kept_trans)
qed

lemma kept_pc_update: "session_kept s (pc_update pc f s)"
  by (auto simp: session_kept_def base_defs)

lemma kept_await: "session_kept s (await c s)"
  by (auto simp: session_kept_def base_defs)

lemma kept_calls: "session_kept s (s\<lparr>calls := cs\<rparr>)"
  by (auto simp: session_kept_def)

lemma kept_catch_offer: "session_kept s (catch_offer e s)"
  unfolding catch_offer_def using kept_log kept_console_log session_kept_trans by blast

lemma kept_catch_candidate: "session_kept s (catch_candidate e s)"
  unfolding catch_candidate_def using kept_log kept_console_log session_kept_trans by blast

lemma kept_resume: "session_kept s (resume c r s)"
proof (cases c)
  case (AfterSetRemoteDescription i pc offer)
  have "session_kept s (await c' ((pc_update pc f s)\<lparr>calls := cs\<rparr>))" for c' f cs
    by (auto simp: session_kept_def base_defs)
  with AfterSetRemoteDescription show ?thesis
    by (cases r) (simp_all add: Let_def kept_catch_offer session_kept_refl)
next
  case (AfterCreateAnswer i pc)
  have "session_kept s (await c' (s\<lparr>calls := cs\<rparr>))" for c' cs
    by (auto simp: session_kept_def base_defs)
  with AfterCreateAnswer show ?thesis
    by (cases r) (simp_all add: kept_catch_offer session_kept_refl)
next
  case (AfterSetLocalDescription i pc answer)
  have "session_kept s (sendToPeer i d (pc_update pc f s))" for f d
    using kept_pc_update kept_sendToPeer session_kept_trans by blast
  with AfterSetLocalDescription show ?thesis
    by (cases r) (simp_all add: kept_catch_offer session_kept_refl)
next
  case (AfterAddIceCandidate pc cand)
  then show ?thesis
    by (cases r) (simp_all add: kept_catch_candidate kept_pc_update session_kept_refl)
qed

lemma kept_sendSubscribe: "session_kept s (sendSubscribe i s)"
proof (cases "DAList.lookup (streamersRef s) i")
  case None
  then show ?thesis by (simp add: sendSubscribe_def kept_log)
next
  case (Some pc)
  have cond: "session_kept t (if b then addEventListener pc l t else t)" for t b l
    by (simp add: kept_addEventListener session_kept_refl)
  define ex where "ex = (case pc_eventListeners (pcs s ! pc) of Some ls \<Rightarrow> ls | None \<Rightarrow> [])"
  define s1 where "s1 = (if icecandidate \<notin> set ex then addEventListener pc icecandidate s else s)"
  define s2 where "s2 = (if connectionstatechange \<notin> set ex
      then addEventListener pc connectionstatechange s1 else s1)"
  define s3 where "s3 = (if track \<notin> set ex then addEventListener pc track s2 else s2)"
  have 1: "session_kept s s1" unfolding s1_def by (rule cond)
  have 2: "session_kept s1 s2" unfolding s2_def by (rule cond)
  have 3: "session_kept s2 s3" unfolding s3_def by (rule cond)
  have 4: "session_kept s3 (sendToPeer i SubscribeData s3)" by (rule kept_sendToPeer)
  have 5: "session_kept (sendToPeer i SubscribeData s3)
      (log (''Subscribe sent to peer '' @ show_num i) (sendToPeer i SubscribeData s3))"
    by (rule kept_log)
  have r: "sendSubscribe i s =
      log (''Subscribe sent to peer '' @ show_num i) (sendToPeer i SubscribeData s3)"
    unfolding sendSubscribe_def Some option.case Let_def s3_def s2_def s1_def ex_def
    by (rule refl)
  show ?thesis
    unfolding r
    by (rule session_kept_trans [OF session_kept_trans [OF session_kept_trans
          [OF session_kept_trans [OF 1 2] 3] 4] 5])
qed

lemma kept_selectStreamer: "session_kept s (selectStreamer i s)"
  unfolding selectStreamer_def using kept_log kept_sendSubscribe session_kept_trans by blast

lemma kept_onmessage: "session_kept s (onmessage d s)"
  unfolding onmessage_def
  by (cases d) (auto intro: kept_log kept_handleSignalingMessage session_kept_trans)

subsection \<open>Closing every peer connection\<close>

lemma close_entries_fields:
  "streamersRef (close_entries es s) = streamersRef s \<and>
   streamerIds (close_entries es s) = streamerIds s \<and>
   logs (close_entries es s) = logs s \<and>
   console (close_entries es s) = console s \<and>
   connectionStatus (close_entries es s) = connectionStatus s \<and>
   client_id (close_entries es s) = client_id s \<and>
   webSocketRef (close_entries es s) = webSocketRef s \<and>
   sockets (close_entries es s) = sockets s \<and>
   timers (close_entries es s) = timers s \<and>
   pending (close_entries es s) = pending s \<and>
   calls (close_entries es s) = calls s @ map (\<lambda>(i, pc). PcClose pc) es \<and>
   length (pcs (close_entries es s)) = length (pcs s)"
  by (induction es arbitrary: s) (auto simp: base_defs)

lemma close_entries_keeps_closed:
  "pc < length (pcs s) \<Longrightarrow> pc_closed (pcs s ! pc) \<Longrightarrow>
   pc_closed (pcs (close_entries es s) ! pc)"
proof (induction es arbitrary: s)
  case Nil
  then show ?case by simp
next
  case (Cons e es)
  obtain i p where e: "e = (i, p)" by (cases e)
  have "pc < length (pcs (pc_close p s))" "pc_closed (pcs (pc_close p s) ! pc)"
    using Cons.prems by (cases "p = pc"; simp add: base_defs nth_list_update)+
  then show ?case
    unfolding e close_entries.simps by (rule Cons.IH)
qed

lemma close_entries_closes:
  "(i, pc) \<in> set es \<Longrightarrow> pc < length (pcs s) \<Longrightarrow>
   pc_closed (pcs (close_entries es s) ! pc)"
proof (induction es arbitrary: s)
  case Nil
  then show ?case by simp
next
  case (Cons e es)
  obtain j p where e: "e = (j, p)" by (cases e)
  have len: "pc < length (pcs (pc_close p s))"
    using Cons.prems by (simp add: base_defs)
  show ?case
  proof (cases "p = pc")
    case True
    then have "pc_closed (pcs (pc_close p s) ! pc)"
      using Cons.prems by (simp add: base_defs)
    with len show ?thesis
      unfolding e close_entries.simps by (rule close_entries_keeps_closed)
  next
    case False
    with Cons.prems e have "(i, pc) \<in> set es" by auto
    then show ?thesis
      unfolding e close_entries.simps using len by (rule Cons.IH)
  qed
qed

lemma manual_disconnect_fields:
  "connectionStatus (manual_disconnect k s) = Disconnected \<and>
   webSocketRef (manual_disconnect k s) = None \<and>
   streamersRef (manual_disconnect k s) = DAList.empty \<and>
   streamerIds (manual_disconnect k s) = [] \<and>
   pcs (manual_disconnect k s) =
     pcs (close_entries (DAList.impl_of (streamersRef s))
       ((ws_close k s)\<lparr>webSocketRef := None, connectionStatus := Disconnected\<rparr>)) \<and>
   sockets (manual_disconnect k s) = sockets (ws_close k s) \<and>
   calls (manual_disconnect k s) =
     calls s @ WsClose k # map (\<lambda>(i, pc). PcClose pc) (DAList.impl_of (streamersRef s))"
  by (simp add: manual_disconnect_def Let_def close_entries_fields log_def updateStreamerIds_def
      ws_close_def DAList.empty.rep_eq)

subsection \<open>The invariant holds in every reachable state\<close>

lemma inv_init: "session_inv init"
  by (simp add: session_inv_def handles_valid_def init_def DAList.empty.rep_eq)

lemma inv_manual_disconnect: "session_inv (manual_disconnect k s)"
  by (simp add: session_inv_def handles_valid_def manual_disconnect_fields DAList.empty.rep_eq)

lemma inv_open_connection: "session_inv s \<Longrightarrow> session_inv (open_connection ce s)"
  by (cases ce)
    (auto simp: session_inv_def handles_valid_def open_connection_def Let_def base_defs
      split: option.splits)

lemma inv_handleConnect: "session_inv s \<Longrightarrow> session_inv (handleConnect ce s)"
  by (auto simp: handleConnect_def inv_manual_disconnect inv_open_connection split: option.splits)

lemma inv_step: "session_inv s \<Longrightarrow> session_inv (step e s)"
proof (cases e)
  case (ClickConnect ce)
  assume "session_inv s"
  then show ?thesis by (simp add: ClickConnect inv_handleConnect)
next
  case (SelectStreamer i)
  assume "session_inv s"
  then show ?thesis
    using session_kept_inv [OF kept_selectStreamer] by (simp add: SelectStreamer)
next
  case (TimeoutFired t)
  assume "session_inv s"
  then show ?thesis
    by (auto simp: TimeoutFired session_inv_def handles_valid_def on_timeout_def log_def
        split: option.splits)
next
  case (SocketOpen k)
  assume "session_inv s"
  then show ?thesis
    by (auto simp: SocketOpen session_inv_def handles_valid_def onopen_def set_readyState_def
        base_defs split: option.splits)
next
  case (SocketMessage k d)
  assume "session_inv s"
  then show ?thesis
    using session_kept_inv [OF kept_onmessage] by (simp add: SocketMessage)
next
  case (SocketClose k)
  assume "session_inv s"
  then show ?thesis
    by (auto simp: SocketClose session_inv_def handles_valid_def onclose_def set_readyState_def
        base_defs split: option.splits)
next
  case (SocketError k)
  assume "session_inv s"
  then show ?thesis
    by (auto simp: SocketError session_inv_def handles_valid_def onerror_def base_defs
        split: option.splits)
next
  case (Settled n r)
  assume a: "session_inv s"
  have "session_kept s (s\<lparr>pending := p\<rparr>)" for p
    by (auto simp: session_kept_def)
  then have "session_kept s (resume c r (s\<lparr>pending := p\<rparr>))" for c p
    using kept_resume session_kept_trans by blast
  then show ?thesis
    using a session_kept_inv by (auto simp: Settled)
qed

lemma inv_run: "session_inv s \<Longrightarrow> session_inv (run es s)"
  by (induction es arbitrary: s) (simp_all add: inv_step)

section \<open>Connect as a toggle\<close>

text \<open>
  Claim C3, as the code has it. When the connect button is used while the status is
  \<open>Connected\<close> or \<open>Connecting\<close> and a channel handle is stored, the handler
  disconnects: it calls \<open>close\<close> on the channel and then on the peer connection of every
  registry entry (all of them are closed afterwards), empties the registry and the list
  of streamer ids, clears the channel handle and sets the status to \<open>Disconnected\<close>.
  When the status is \<open>Connecting\<close> and no channel handle is stored, the handler changes
  nothing. In every state that the component reaches from its mounted state, a status
  of \<open>Connected\<close> comes with a stored channel handle, and all handles are valid: so
  connect while \<open>Connected\<close> always disconnects.
\<close>

theorem connect_toggles:
  "((connectionStatus s = Connected \<or> connectionStatus s = Connecting) \<and>
    webSocketRef s = Some k \<and> handles_valid s \<longrightarrow>
      connectionStatus (handleConnect ce s) = Disconnected \<and>
      webSocketRef (handleConnect ce s) = None \<and>
      streamersRef (handleConnect ce s) = DAList.empty \<and>
      streamerIds (handleConnect ce s) = [] \<and>
      list_all (\<lambda>(i, pc). pc_closed (pcs (handleConnect ce s) ! pc))
        (DAList.impl_of (streamersRef s)) \<and>
      (ws_readyState (sockets (handleConnect ce s) ! k) = CLOSING \<or>
       ws_readyState (sockets (handleConnect ce s) ! k) = CLOSED) \<and>
      calls (handleConnect ce s) =
        calls s @ WsClose k # map (\<lambda>(i, pc). PcClose pc) (DAList.impl_of (streamersRef s))) \<and>
   (connectionStatus s = Connecting \<and> webSocketRef s = None \<longrightarrow> handleConnect ce s = s) \<and>
   (connectionStatus (run es init) = Connected \<longrightarrow> webSocketRef (run es init) \<noteq> None) \<and>
   handles_valid (run es init)"
proof -
  have reach: "session_inv (run es init)"
    by (rule inv_run [OF inv_init])
  have noop: "connectionStatus s = Connecting \<and> webSocketRef s = None \<longrightarrow> handleConnect ce s = s"
    by (simp add: handleConnect_def)
  have toggle: "connectionStatus (handleConnect ce s) = Disconnected \<and>
      webSocketRef (handleConnect ce s) = None \<and>
      streamersRef (handleConnect ce s) = DAList.empty \<and>
      streamerIds (handleConnect ce s) = [] \<and>
      list_all (\<lambda>(i, pc). pc_closed (pcs (handleConnect ce s) ! pc))
        (DAList.impl_of (streamersRef s)) \<and>
      (ws_readyState (sockets (handleConnect ce s) ! k) = CLOSING \<or>
       ws_readyState (sockets (handleConnect ce s) ! k) = CLOSED) \<and>
      calls (handleConnect ce s) =
        calls s @ WsClose k # map (\<lambda>(i, pc). PcClose pc) (DAList.impl_of (streamersRef s))"
    if st: "connectionStatus s = Connected \<or> connectionStatus s = Connecting"
      and ref: "webSocketRef s = Some k" and hv: "handles_valid s"
  proof -
    have h: "handleConnect ce s = manual_disconnect k s"
      using st ref by (auto simp: handleConnect_def)
    let ?s2 = "(ws_close k s)\<lparr>webSocketRef := None, connectionStatus := Disconnected\<rparr>"
    have k: "k < length (sockets s)"
      using hv ref by (simp add: handles_valid_def)
    have "pc_closed (pcs (close_entries (DAList.impl_of (streamersRef s)) ?s2) ! pc)"
      if "(i, pc) \<in> set (DAList.impl_of (streamersRef s))" for i pc
    proof (rule close_entries_closes [OF that])
      show "pc < length (pcs ?s2)"
        using hv that by (auto simp: handles_valid_def list_all_iff ws_close_def)
    qed
    then have closed: "list_all (\<lambda>(i, pc). pc_closed (pcs (manual_disconnect k s) ! pc))
        (DAList.impl_of (streamersRef s))"
      by (auto simp: list_all_iff manual_disconnect_fields)
    have sock: "ws_readyState (sockets (manual_disconnect k s) ! k) = CLOSING \<or>
       ws_readyState (sockets (manual_disconnect k s) ! k) = CLOSED"
      using k by (simp add: manual_disconnect_fields ws_close_def split: readyState.splits)
    from closed sock show ?thesis
      unfolding h by (simp add: manual_disconnect_fields)
  qed
  from reach noop toggle show ?thesis
    unfolding session_inv_def by blast
qed

theorem connect_toggles_witness:
  "connectionStatus (run [ClickConnect None, SocketOpen 0,
      SocketMessage 0 (Inr (ConnectMessage 7 [1, 2])), ClickConnect None] init) = Disconnected \<and>
   webSocketRef (run [ClickConnect None, SocketOpen 0,
      SocketMessage 0 (Inr (ConnectMessage 7 [1, 2])), ClickConnect None] init) = None \<and>
   streamersRef (run [ClickConnect None, SocketOpen 0,
      SocketMessage 0 (Inr (ConnectMessage 7 [1, 2])), ClickConnect None] init) = DAList.empty \<and>
   handleConnect None (run [ClickConnect None] init) = run [ClickConnect None] init"
proof -
  let ?s = "run [ClickConnect None, SocketOpen 0,
      SocketMessage 0 (Inr (ConnectMessage 7 [1, 2]))] init"
  let ?c = "run [ClickConnect None] init"
  have r: "run [ClickConnect None, SocketOpen 0,
      SocketMessage 0 (Inr (ConnectMessage 7 [1, 2])), ClickConnect None] init =
      handleConnect None ?s"
    by simp
  have a: "(connectionStatus ?s = Connected \<or> connectionStatus ?s = Connecting) \<and>
      webSocketRef ?s = Some 0 \<and> handles_valid ?s"
    by (simp add: handles_valid_def eval_defs)
  have b: "connectionStatus ?c = Connecting \<and> webSocketRef ?c = None"
    by (simp add: eval_defs)
  note t = connect_toggles [of ?s 0 None "[]"]
  note u = connect_toggles [of ?c 0 None "[]"]
  from t a have 1: "connectionStatus (handleConnect None ?s) = Disconnected"
    "webSocketRef (handleConnect None ?s) = None"
    "streamersRef (handleConnect None ?s) = DAList.empty"
    by blast+
  from u b have 2: "handleConnect None ?c = ?c"
    by blast
  from 1 2 show ?thesis
    unfolding r by blast
qed

text \<open>
  The claim says that connect is a no-op whenever the status is \<open>Connecting\<close>. It is
  not when a channel handle is stored. The first attempt times out, a second one is
  started, the first socket opens late (its handle is stored), the second attempt times
  out, a third one is started: the status is \<open>Connecting\<close> and the handle of the first
  socket is stored. Connect now closes that socket and sets the status to
  \<open>Disconnected\<close>.
\<close>

theorem connect_while_connecting_counterexample:
  "connectionStatus (run [ClickConnect None, TimeoutFired 0, ClickConnect None, SocketOpen 0,
      TimeoutFired 1, ClickConnect None] init) = Connecting \<and>
   webSocketRef (run [ClickConnect None, TimeoutFired 0, ClickConnect None, SocketOpen 0,
      TimeoutFired 1, ClickConnect None] init) = Some 0 \<and>
   handleConnect None (run [ClickConnect None, TimeoutFired 0, ClickConnect None, SocketOpen 0,
      TimeoutFired 1, ClickConnect None] init) \<noteq>
     run [ClickConnect None, TimeoutFired 0, ClickConnect None, SocketOpen 0,
      TimeoutFired 1, ClickConnect None] init \<and>
   connectionStatus (handleConnect None (run [ClickConnect None, TimeoutFired 0,
      ClickConnect None, SocketOpen 0, TimeoutFired 1, ClickConnect None] init)) = Disconnected \<and>
   calls (handleConnect None (run [ClickConnect None, TimeoutFired 0,
      ClickConnect None, SocketOpen 0, TimeoutFired 1, ClickConnect None] init)) =
     [NewWebSocket 0, NewWebSocket 1, NewWebSocket 2, WsClose 0]"
proof -
  let ?s = "run [ClickConnect None, TimeoutFired 0, ClickConnect None, SocketOpen 0,
      TimeoutFired 1, ClickConnect None] init"
  have 1: "connectionStatus ?s = Connecting" "webSocketRef ?s = Some 0"
    "calls ?s = [NewWebSocket 0, NewWebSocket 1, NewWebSocket 2]"
    by (simp_all add: eval_defs)
  have 2: "connectionStatus (handleConnect None ?s) = Disconnected"
    "calls (handleConnect None ?s) = [NewWebSocket 0, NewWebSocket 1, NewWebSocket 2, WsClose 0]"
    by (simp_all add: eval_defs)
  from 1 2 have "handleConnect None ?s \<noteq> ?s"
    by (metis ConnectionStatus.distinct(1))
  with 1 2 show ?thesis by simp
qed

section \<open>An offer, followed to its end\<close>

lemmas offer_defs = offer_to_completion_def settle_last_def handleOffer_def catch_offer_def
  Let_def base_defs

lemma offer_remote_rejected:
  assumes "DAList.lookup (streamersRef s) sender = Some pc" "pc < length (pcs s)"
  shows "offer_to_completion offer sender (RemoteRejected error) s =
     s\<lparr>pcs := (pcs s)[pc := offer_listened pc s],
       logs := logs s @ [''Offer received from streamer '' @ show_num sender,
                         ''Error processing offer: '' @ error],
       console := console s @ [''Offer received from streamer '' @ show_num sender,
                         ''Offer received. Current streamers:'',
                         ''Error processing offer: '' @ error, ''Error processing offer:''],
       calls := calls s @ [PcAddEventListener pc icecandidate,
                         PcAddEventListener pc connectionstatechange,
                         PcAddEventListener pc track, PcSetRemoteDescription pc offer]\<rparr>"
  using assms by (simp add: offer_defs offer_listened_def)

lemma offer_answer_rejected:
  assumes "DAList.lookup (streamersRef s) sender = Some pc" "pc < length (pcs s)"
  shows "offer_to_completion offer sender (AnswerRejected error) s =
     s\<lparr>pcs := (pcs s)[pc := (offer_listened pc s)\<lparr>pc_remoteDescription := Some offer\<rparr>],
       logs := logs s @ [''Offer received from streamer '' @ show_num sender,
                         ''Error processing offer: '' @ error],
       console := console s @ [''Offer received from streamer '' @ show_num sender,
                         ''Offer received. Current streamers:'',
                         ''Error processing offer: '' @ error, ''Error processing offer:''],
       calls := calls s @ [PcAddEventListener pc icecandidate,
                         PcAddEventListener pc connectionstatechange,
                         PcAddEventListener pc track, PcSetRemoteDescription pc offer,
                         PcCreateAnswer pc]\<rparr>"
  using assms by (simp add: offer_defs offer_listened_def)

lemma offer_local_rejected:
  assumes "DAList.lookup (streamersRef s) sender = Some pc" "pc < length (pcs s)"
  shows "offer_to_completion offer sender (LocalRejected answer error) s =
     s\<lparr>pcs := (pcs s)[pc := (offer_listened pc s)\<lparr>pc_remoteDescription := Some offer\<rparr>],
       logs := logs s @ [''Offer received from streamer '' @ show_num sender,
                         ''Error processing offer: '' @ error],
       console := console s @ [''Offer received from streamer '' @ show_num sender,
                         ''Offer received. Current streamers:'',
                         ''Error processing offer: '' @ error, ''Error processing offer:''],
       calls := calls s @ [PcAddEventListener pc icecandidate,
                         PcAddEventListener pc connectionstatechange,
                         PcAddEventListener pc track, PcSetRemoteDescription pc offer,
                         PcCreateAnswer pc, PcSetLocalDescription pc answer]\<rparr>"
  using assms by (simp add: offer_defs offer_listened_def)

lemma offer_negotiated:
  assumes "DAList.lookup (streamersRef s) sender = Some pc" "pc < length (pcs s)"
  shows "offer_to_completion offer sender (Negotiated answer) s =
     sendToPeer sender (AnswerData answer)
      (s\<lparr>pcs := (pcs s)[pc := (offer_listened pc s)
                  \<lparr>pc_remoteDescription := Some offer, pc_localDescription := Some answer\<rparr>],
       logs := logs s @ [''Offer received from streamer '' @ show_num sender],
       console := console s @ [''Offer received from streamer '' @ show_num sender,
                         ''Offer received. Current streamers:''],
       calls := calls s @ [PcAddEventListener pc icecandidate,
                         PcAddEventListener pc connectionstatechange,
                         PcAddEventListener pc track, PcSetRemoteDescription pc offer,
                         PcCreateAnswer pc, PcSetLocalDescription pc answer]\<rparr>)"
  using assms
  apply (simp add: offer_defs offer_listened_def)
  apply (rule arg_cong [where f = "sendToPeer sender (AnswerData answer)"])
  apply simp
  done

lemma sendToPeer_open:
  assumes "webSocketRef s = Some k" "ws_readyState (sockets s ! k) = OPEN"
  shows "sendToPeer target data s =
     s\<lparr>sockets := (sockets s)[k := (sockets s ! k)\<lparr>ws_sent := ws_sent (sockets s ! k) @ [(data, target)]\<rparr>],
       calls := calls s @ [WsSend k (data, target)],
       console := console s @ [''Sent to peer '' @ show_num target @ '':'']\<rparr>"
  using assms by (simp add: sendToPeer_def base_defs)

text \<open>
  Claim C5, as the code has it. For an offer whose sender is in the registry the handler
  registers the three listeners on the sender's peer connection and then calls, in this
  order, \<open>setRemoteDescription\<close> with the offer, \<open>createAnswer\<close>,
  \<open>setLocalDescription\<close> with the answer, and \<open>sendToPeer\<close> with the answer and the
  sender id as target; \<open>sendToPeer\<close> transmits on the channel when it is open. When
  one of the three calls is rejected, the calls after it are not made, the error is
  logged, and nothing changes but the logs, the record of calls and the sender's own
  peer connection: the registry, the other peer connections, the status, the channel
  and the pending calls are as before. The sender's peer connection keeps the three
  new listeners, and the remote description when \<open>setRemoteDescription\<close> was
  fulfilled.
\<close>

theorem offer_negotiation:
  assumes "DAList.lookup (streamersRef s) sender = Some pc" and "pc < length (pcs s)"
  shows
   "offer_to_completion offer sender (Negotiated answer) s =
     sendToPeer sender (AnswerData answer)
      (s\<lparr>pcs := (pcs s)[pc := (offer_listened pc s)
                  \<lparr>pc_remoteDescription := Some offer, pc_localDescription := Some answer\<rparr>],
         logs := logs s @ [''Offer received from streamer '' @ show_num sender],
         console := console s @ [''Offer received from streamer '' @ show_num sender,
                         ''Offer received. Current streamers:''],
         calls := calls s @ [PcAddEventListener pc icecandidate,
                         PcAddEventListener pc connectionstatechange,
                         PcAddEventListener pc track, PcSetRemoteDescription pc offer,
                         PcCreateAnswer pc, PcSetLocalDescription pc answer]\<rparr>) \<and>
    (webSocketRef s = Some k \<and> ws_readyState (sockets s ! k) = OPEN \<longrightarrow>
      calls (offer_to_completion offer sender (Negotiated answer) s) =
        calls s @ [PcAddEventListener pc icecandidate,
                   PcAddEventListener pc connectionstatechange,
                   PcAddEventListener pc track, PcSetRemoteDescription pc offer,
                   PcCreateAnswer pc, PcSetLocalDescription pc answer,
                   WsSend k (AnswerData answer, sender)] \<and>
      sockets (offer_to_completion offer sender (Negotiated answer) s) =
        (sockets s)[k := (sockets s ! k)
            \<lparr>ws_sent := ws_sent (sockets s ! k) @ [(AnswerData answer, sender)]\<rparr>]) \<and>
    offer_to_completion offer sender (RemoteRejected error) s =
     s\<lparr>pcs := (pcs s)[pc := offer_listened pc s],
       logs := logs s @ [''Offer received from streamer '' @ show_num sender,
                         ''Error processing offer: '' @ error],
       console := console s @ [''Offer received from streamer '' @ show_num sender,
                         ''Offer received. Current streamers:'',
                         ''Error processing offer: '' @ error, ''Error processing offer:''],
       calls := calls s @ [PcAddEventListener pc icecandidate,
                         PcAddEventListener pc connectionstatechange,
                         PcAddEventListener pc track, PcSetRemoteDescription pc offer]\<rparr> \<and>
    offer_to_completion offer sender (AnswerRejected error) s =
     s\<lparr>pcs := (pcs s)[pc := (offer_listened pc s)\<lparr>pc_remoteDescription := Some offer\<rparr>],
       logs := logs s @ [''Offer received from streamer '' @ show_num sender,
                         ''Error processing offer: '' @ error],
       console := console s @ [''Offer received from streamer '' @ show_num sender,
                         ''Offer received. Current streamers:'',
                         ''Error processing offer: '' @ error, ''Error processing offer:''],
       calls := calls s @ [PcAddEventListener pc icecandidate,
                         PcAddEventListener pc connectionstatechange,
                         PcAddEventListener pc track, PcSetRemoteDescription pc offer,
                         PcCreateAnswer pc]\<rparr> \<and>
    offer_to_completion offer sender (LocalRejected answer error) s =
     s\<lparr>pcs := (pcs s)[pc := (offer_listened pc s)\<lparr>pc_remoteDescription := Some offer\<rparr>],
       logs := logs s @ [''Offer received from streamer '' @ show_num sender,
                         ''Error processing offer: '' @ error],
       console := console s @ [''Offer received from streamer '' @ show_num sender,
                         ''Offer received. Current streamers:'',
                         ''Error processing offer: '' @ error, ''Error processing offer:''],
       calls := calls s @ [PcAddEventListener pc icecandidate,
                         PcAddEventListener pc connectionstatechange,
                         PcAddEventListener pc track, PcSetRemoteDescription pc offer,
                         PcCreateAnswer pc, PcSetLocalDescription pc answer]\<rparr>"
proof -
  note n = offer_negotiated [OF assms, of offer answer]
  have "calls (offer_to_completion offer sender (Negotiated answer) s) =
        calls s @ [PcAddEventListener pc icecandidate,
                   PcAddEventListener pc connectionstatechange,
                   PcAddEventListener pc track, PcSetRemoteDescription pc offer,
                   PcCreateAnswer pc, PcSetLocalDescription pc answer,
                   WsSend k (AnswerData answer, sender)] \<and>
      sockets (offer_to_completion offer sender (Negotiated answer) s) =
        (sockets s)[k := (sockets s ! k)
            \<lparr>ws_sent := ws_sent (sockets s ! k) @ [(AnswerData answer, sender)]\<rparr>]"
    if "webSocketRef s = Some k" "ws_readyState (sockets s ! k) = OPEN"
    unfolding n using that by (simp add: sendToPeer_def base_defs)
  with n offer_remote_rejected [OF assms, of offer error]
    offer_answer_rejected [OF assms, of offer error]
    offer_local_rejected [OF assms, of offer answer error]
  show ?thesis by blast
qed

theorem offer_negotiation_witness:
  "calls (offer_to_completion ''v=0'' 1 (Negotiated ''a=1'')
      (run [ClickConnect None, SocketOpen 0, SocketMessage 0 (Inr (ConnectMessage 7 [1, 2]))] init)) =
     [NewWebSocket 0, NewPeerConnection 0, NewPeerConnection 1,
      PcAddEventListener 0 icecandidate, PcAddEventListener 0 connectionstatechange,
      PcAddEventListener 0 track, PcSetRemoteDescription 0 ''v=0'', PcCreateAnswer 0,
      PcSetLocalDescription 0 ''a=1'', WsSend 0 (AnswerData ''a=1'', 1)] \<and>
   map ws_sent (sockets (offer_to_completion ''v=0'' 1 (Negotiated ''a=1'')
      (run [ClickConnect None, SocketOpen 0, SocketMessage 0 (Inr (ConnectMessage 7 [1, 2]))] init))) =
     [[(AnswerData ''a=1'', 1)]] \<and>
   logs (offer_to_completion ''v=0'' 1 (AnswerRejected ''boom'')
      (run [ClickConnect None, SocketOpen 0, SocketMessage 0 (Inr (ConnectMessage 7 [1, 2]))] init)) =
     logs (run [ClickConnect None, SocketOpen 0, SocketMessage 0 (Inr (ConnectMessage 7 [1, 2]))] init)
       @ [''Offer received from streamer '' @ show_num 1, ''Error processing offer: boom''] \<and>
   streamersRef (offer_to_completion ''v=0'' 1 (AnswerRejected ''boom'')
      (run [ClickConnect None, SocketOpen 0, SocketMessage 0 (Inr (ConnectMessage 7 [1, 2]))] init)) =
     streamersRef (run [ClickConnect None, SocketOpen 0,
        SocketMessage 0 (Inr (ConnectMessage 7 [1, 2]))] init)"
proof -
  let ?s = "run [ClickConnect None, SocketOpen 0, SocketMessage 0 (Inr (ConnectMessage 7 [1, 2]))] init"
  have a: "DAList.lookup (streamersRef ?s) 1 = Some 0" "0 < length (pcs ?s)"
    by (simp_all add: eval_defs)
  have b: "webSocketRef ?s = Some 0 \<and> ws_readyState (sockets ?s ! 0) = OPEN"
    by (simp add: eval_defs)
  have c: "calls ?s = [NewWebSocket 0, NewPeerConnection 0, NewPeerConnection 1]"
    "sockets ?s = [\<lparr>ws_readyState = OPEN, ws_sent = [], ws_timeoutId = 0\<rparr>]"
    by (simp_all add: eval_defs)
  note t = offer_negotiation [OF a, where k = 0 and offer = "''v=0''" and answer = "''a=1''"
      and error = "''boom''"]
  from t b have 1: "calls (offer_to_completion ''v=0'' 1 (Negotiated ''a=1'') ?s) =
        calls ?s @ [PcAddEventListener 0 icecandidate,
                   PcAddEventListener 0 connectionstatechange,
                   PcAddEventListener 0 track, PcSetRemoteDescription 0 ''v=0'',
                   PcCreateAnswer 0, PcSetLocalDescription 0 ''a=1'',
                   WsSend 0 (AnswerData ''a=1'', 1)]"
      "sockets (offer_to_completion ''v=0'' 1 (Negotiated ''a=1'') ?s) =
        (sockets ?s)[0 := (sockets ?s ! 0)
            \<lparr>ws_sent := ws_sent (sockets ?s ! 0) @ [(AnswerData ''a=1'', 1)]\<rparr>]"
    by blast+
  from t have 2: "offer_to_completion ''v=0'' 1 (AnswerRejected ''boom'') ?s =
     ?s\<lparr>pcs := (pcs ?s)[0 := (offer_listened 0 ?s)\<lparr>pc_remoteDescription := Some ''v=0''\<rparr>],
       logs := logs ?s @ [''Offer received from streamer '' @ show_num 1,
                         ''Error processing offer: '' @ ''boom''],
       console := console ?s @ [''Offer received from streamer '' @ show_num 1,
                         ''Offer received. Current streamers:'',
                         ''Error processing offer: '' @ ''boom'', ''Error processing offer:''],
       calls := calls ?s @ [PcAddEventListener 0 icecandidate,
                         PcAddEventListener 0 connectionstatechange,
                         PcAddEventListener 0 track, PcSetRemoteDescription 0 ''v=0'',
                         PcCreateAnswer 0]\<rparr>"
    by blast
  show ?thesis
    unfolding 1 2 c by simp
qed

text \<open>
  The claim says that after a failure the peer entry is in its prior state. It is not:
  with streamers 1 and 2 from the roster, an offer from streamer 1 whose
  \<open>setRemoteDescription\<close> is rejected leaves three listeners on a peer connection that
  had none, and one whose \<open>createAnswer\<close> is rejected leaves the remote description
  set as well.
\<close>

theorem failed_offer_changes_peer_counterexample:
  "DAList.lookup (streamersRef (handleConnectMessage 7 [1, 2] init)) 1 = Some 0 \<and>
   pc_listeners (pcs (handleConnectMessage 7 [1, 2] init) ! 0) = [] \<and>
   pc_remoteDescription (pcs (handleConnectMessage 7 [1, 2] init) ! 0) = None \<and>
   pc_listeners (pcs (offer_to_completion ''v=0'' 1 (RemoteRejected ''boom'')
       (handleConnectMessage 7 [1, 2] init)) ! 0) = [icecandidate, connectionstatechange, track] \<and>
   pc_listeners (pcs (offer_to_completion ''v=0'' 1 (AnswerRejected ''boom'')
       (handleConnectMessage 7 [1, 2] init)) ! 0) = [icecandidate, connectionstatechange, track] \<and>
   pc_remoteDescription (pcs (offer_to_completion ''v=0'' 1 (AnswerRejected ''boom'')
       (handleConnectMessage 7 [1, 2] init)) ! 0) = Some ''v=0'' \<and>
   pcs (offer_to_completion ''v=0'' 1 (RemoteRejected ''boom'')
       (handleConnectMessage 7 [1, 2] init)) ! 0 \<noteq> pcs (handleConnectMessage 7 [1, 2] init) ! 0"
  by (simp add: eval_defs offer_to_completion_def settle_last_def)

section \<open>The connect timeout\<close>

lemma late_failure_keeps_error:
  "late_failure e \<Longrightarrow> connectionStatus s = ConnectionError \<Longrightarrow>
   connectionStatus (step e s) = ConnectionError"
  by (cases e) (simp_all add: on_timeout_def onerror_def base_defs)

lemma changes_to_error_none:
  "list_all late_failure es \<Longrightarrow> connectionStatus s = ConnectionError \<Longrightarrow>
   changes_to ConnectionError es s = 0 \<and> connectionStatus (run es s) = ConnectionError"
proof (induction es arbitrary: s)
  case Nil
  then show ?case by simp
next
  case (Cons e es)
  then have "connectionStatus (step e s) = ConnectionError"
    by (simp add: late_failure_keeps_error)
  with Cons show ?case by simp
qed

text \<open>
  Claim C8, as the code has it. A connect attempt is started from the status
  \<open>Disconnected\<close> or \<open>ConnectionError\<close>. When its timer fires first, the status
  changes to \<open>ConnectionError\<close>, and socket errors and timers that come after it, in
  any number, leave it there: the status changes to \<open>ConnectionError\<close> exactly once. An
  open event of the attempt's socket after the timer is not ignored: it sets the status
  to \<open>Connected\<close>.
\<close>

theorem timeout_sets_error_once:
  assumes "connectionStatus s = Disconnected \<or> connectionStatus s = ConnectionError"
    and "list_all late_failure es"
  shows "changes_to ConnectionError (TimeoutFired (length (timers s)) # es) (handleConnect None s) = 1 \<and>
    connectionStatus (run (TimeoutFired (length (timers s)) # es) (handleConnect None s)) = ConnectionError \<and>
    connectionStatus (run [TimeoutFired (length (timers s)), SocketOpen (length (sockets s))]
        (handleConnect None s)) = Connected"
proof -
  let ?s1 = "handleConnect None s"
  let ?s2 = "step (TimeoutFired (length (timers s))) ?s1"
  have 1: "connectionStatus ?s1 = Connecting"
    using assms(1) by (auto simp: handleConnect_def open_connection_def Let_def)
  have 2: "connectionStatus ?s2 = ConnectionError"
    using assms(1) by (auto simp: handleConnect_def open_connection_def Let_def on_timeout_def base_defs)
  have 3: "connectionStatus (step (SocketOpen (length (sockets s))) ?s2) = Connected"
    using assms(1)
    by (auto simp: handleConnect_def open_connection_def Let_def on_timeout_def onopen_def
        set_readyState_def base_defs nth_append)
  from changes_to_error_none [OF assms(2) 2] 1 2 3 show ?thesis by simp
qed

theorem timeout_sets_error_once_witness:
  "changes_to ConnectionError [TimeoutFired 0, SocketError 0, SocketError 0]
      (handleConnect None init) = 1 \<and>
   connectionStatus (run [TimeoutFired 0, SocketError 0, SocketError 0]
      (handleConnect None init)) = ConnectionError"
proof -
  have a: "connectionStatus init = Disconnected \<or> connectionStatus init = ConnectionError"
    by (simp add: init_def)
  have b: "list_all late_failure [SocketError 0, SocketError 0]"
    by simp
  have c: "length (timers init) = 0"
    by (simp add: init_def)
  from timeout_sets_error_once [OF a b] show ?thesis
    unfolding c by blast
qed

text \<open>
  The claim says that the status changes to \<open>ConnectionError\<close> once also when an open
  or error event comes after the timer. With a late open followed by an error it
  changes twice: the timer sets \<open>ConnectionError\<close>, the late open sets \<open>Connected\<close>,
  the error sets \<open>ConnectionError\<close> again.
\<close>

theorem late_open_then_error_counterexample:
  "changes_to ConnectionError [TimeoutFired 0, SocketOpen 0, SocketError 0]
      (handleConnect None init) = 2 \<and>
   map (\<lambda>es. connectionStatus (run es (handleConnect None init)))
     [[], [TimeoutFired 0], [TimeoutFired 0, SocketOpen 0],
      [TimeoutFired 0, SocketOpen 0, SocketError 0]] =
     [Connecting, ConnectionError, Connected, ConnectionError]"
  by (simp add: eval_defs)

section \<open>The scenario of the specification\<close>

text \<open>
  The roster \<open>connect{id: 7, streamers: [1, 2]}\<close> gives the registry the keys 1 and 2
  and the client the id 7; an offer from streamer 1 that is negotiated to its end sends
  an answer addressed to 1; \<open>streamer-disconnected{streamer_id: 1}\<close> then leaves the
  key 2, with the peer connection of streamer 1 closed.
\<close>

lemma scenario_session:
  "map fst (DAList.impl_of (streamersRef (run [ClickConnect None, SocketOpen 0,
       SocketMessage 0 (Inr (ConnectMessage 7 [1, 2]))] init))) = [1, 2] \<and>
   client_id (run [ClickConnect None, SocketOpen 0,
       SocketMessage 0 (Inr (ConnectMessage 7 [1, 2]))] init) = 7 \<and>
   map ws_sent (sockets (run [ClickConnect None, SocketOpen 0,
       SocketMessage 0 (Inr (ConnectMessage 7 [1, 2])),
       SocketMessage 0 (Inr (OfferMessage ''X'' 1)),
       Settled 0 Fulfilled, Settled 0 (FulfilledWith ''A''), Settled 0 Fulfilled] init)) =
     [[(AnswerData ''A'', 1)]] \<and>
   map fst (DAList.impl_of (streamersRef (run [ClickConnect None, SocketOpen 0,
       SocketMessage 0 (Inr (ConnectMessage 7 [1, 2])),
       SocketMessage 0 (Inr (OfferMessage ''X'' 1)),
       Settled 0 Fulfilled, Settled 0 (FulfilledWith ''A''), Settled 0 Fulfilled,
       SocketMessage 0 (Inr (DisconnectedMessage 1))] init))) = [2] \<and>
   map pc_closed (pcs (run [ClickConnect None, SocketOpen 0,
       SocketMessage 0 (Inr (ConnectMessage 7 [1, 2])),
       SocketMessage 0 (Inr (OfferMessage ''X'' 1)),
       Settled 0 Fulfilled, Settled 0 (FulfilledWith ''A''), Settled 0 Fulfilled,
       SocketMessage 0 (Inr (DisconnectedMessage 1))] init)) = [True, False]"
  by (simp add: eval_defs)

end
